theory Spec2Isabelle
  imports Complex_Main
begin

section \<open>The card effect of \<^verbatim>\<open>src/main.ts\<close>\<close>

text \<open>
  The class \<^verbatim>\<open>CardEffect\<close> keeps a grid of squares, two easing scalars and a hover flag,
  and redraws the grid on every animation frame. The model below follows the class member
  by member.

  Numbers: a TypeScript \<^verbatim>\<open>number\<close> is modelled as a \<^typ>\<open>real\<close>. Rounding, overflow and
  NaN-valued inputs of IEEE doubles are outside the model. The one division whose divisor
  can be zero (the wave gate's \<^verbatim>\<open>distanceFromCenter / _maxPointDistance\<close>) is modelled with
  the result JavaScript gives it (an infinity or NaN), not with HOL's \<open>x / 0 = 0\<close>.

  Collaborators: the canvas element is a record of the properties the class writes
  (\<^verbatim>\<open>width\<close>, \<^verbatim>\<open>height\<close>, \<^verbatim>\<open>style.opacity\<close>); its \<^verbatim>\<open>width\<close> and \<^verbatim>\<open>height\<close> are
  the unsigned long attributes of an \<^verbatim>\<open>HTMLCanvasElement\<close>, which store a whole number
  (see \<open>canvasDimension\<close> below); the 2d context, taken to exist, is its \<^verbatim>\<open>fillStyle\<close>
  and the sequence of calls made on it; \<^verbatim>\<open>Math.random\<close> is a stream \<open>rnd\<close> of numbers,
  read in call order.
\<close>

subsection \<open>Data\<close>

record Color =
  r :: real
  g :: real
  b :: real

text \<open>
  \<^verbatim>\<open>Square.color\<close> is read from \<^verbatim>\<open>colors[i]\<close>; JavaScript yields \<^verbatim>\<open>undefined\<close> for an
  index out of range, which is \<open>None\<close> here.
\<close>

record Square =
  x :: real
  y :: real
  opacity :: real
  speed :: real
  color :: "Color option"
  distanceFromCenter :: real

record CardEffectOptions =
  cellSize :: real
  gapSize :: real
  gridCells :: real
  squareSize :: real
  minPointFadeSpeed :: real
  maxPointFadeSpeed :: real
  pointFadeSpeedFactor :: real
  cardSpeedFactor :: real
  fadeSpeedFactor :: real
  colors :: "Color list"
  icon :: "string option"
  mainTextColorHover :: "string option"
  mainBorderColorHover :: "string option"

definition DEFAULT_OPTIONS :: CardEffectOptions where
  "DEFAULT_OPTIONS =
     \<lparr> cellSize = 50, gapSize = 0, gridCells = 50, squareSize = 25,
       minPointFadeSpeed = 4, maxPointFadeSpeed = 6,
       pointFadeSpeedFactor = 1 / 100,
       cardSpeedFactor = 65 / 1000,
       fadeSpeedFactor = 4 / 100,
       colors = [\<lparr> r = 255, g = 255, b = 255 \<rparr>, \<lparr> r = 255, g = 0, b = 0 \<rparr>],
       icon = None, mainTextColorHover = None, mainBorderColorHover = None \<rparr>"

record Canvas =
  width :: real
  height :: real
  style_opacity :: "real option"

text \<open>
  \<^verbatim>\<open>HTMLCanvasElement\<close> is the platform's, not this repository's. Its \<^verbatim>\<open>width\<close> and
  \<^verbatim>\<open>height\<close> are reflected \<^verbatim>\<open>unsigned long\<close> attributes: an assigned number is first
  converted as Web IDL converts to \<^verbatim>\<open>unsigned long\<close> (the fraction is dropped, towards
  zero, and the result taken modulo \<open>2\<^sup>3\<^sup>2\<close>); a result above \<open>2\<^sup>3\<^sup>1 - 1\<close> is replaced
  by the attribute's default (300 for the width, 150 for the height). Reading the
  attribute gives the whole number stored: \<^verbatim>\<open>canvas.width = 37.5\<close> reads back 37.
\<close>

definition toUnsignedLong :: "real \<Rightarrow> int" where
  "toUnsignedLong v = (if 0 \<le> v then \<lfloor>v\<rfloor> else \<lceil>v\<rceil>) mod 4294967296"

definition canvasDimension :: "int \<Rightarrow> real \<Rightarrow> real" where
  "canvasDimension dflt v =
     (if toUnsignedLong v \<le> 2147483647 then of_int (toUnsignedLong v) else of_int dflt)"

text \<open>
  The template string \<^verbatim>\<open>rgba(r, g, b, opacity)\<close> is kept as its four numbers.
\<close>

datatype fill_style = InitialStyle | Rgba real real real real

datatype draw_call =
    ClearRect real real real real
  | FillRect fill_style real real real real

record Context2D =
  fillStyle :: fill_style
  calls :: "draw_call list"

datatype error = Error string | TypeError

record CardEffect =
  options :: CardEffectOptions
  canvas :: Canvas
  ctx :: Context2D
  squares :: "Square list"
  mouseInCard :: bool
  opacityTouchFactor :: real
  maxPointDistance :: real
  fadeSpeed :: real

subsection \<open>JavaScript division and comparison\<close>

datatype jsnum = Finite real | PosInfinity | NegInfinity | NaN

text \<open>
  \<^verbatim>\<open>a / d\<close> for finite operands: a finite quotient when \<open>d \<noteq> 0\<close>; otherwise an infinity
  with the sign of \<open>a\<close>, or NaN for \<open>0 / 0\<close>. (The divisor of the wave gate is never the
  negative zero: it starts as \<open>0\<close> and is only ever assigned a larger square root.)
\<close>

definition js_div :: "real \<Rightarrow> real \<Rightarrow> jsnum" where
  "js_div a d =
     (if d \<noteq> 0 then Finite (a / d)
      else if 0 < a then PosInfinity
      else if a < 0 then NegInfinity
      else NaN)"

text \<open>\<^verbatim>\<open>v > c\<close> for a finite \<open>c\<close>: every comparison with NaN is false.\<close>

fun js_gt :: "jsnum \<Rightarrow> real \<Rightarrow> bool" where
  "js_gt (Finite a) c = (c < a)"
| "js_gt PosInfinity c = True"
| "js_gt NegInfinity c = False"
| "js_gt NaN c = False"

subsection \<open>Private helpers\<close>

text \<open>\<^verbatim>\<open>_randomSpeed\<close>; \<open>u\<close> is the value \<^verbatim>\<open>Math.random()\<close> returned.\<close>

definition randomSpeed :: "CardEffect \<Rightarrow> real \<Rightarrow> real" where
  "randomSpeed e u =
     u * (maxPointFadeSpeed (options e) - minPointFadeSpeed (options e) + 1)
       + minPointFadeSpeed (options e)"

text \<open>\<^verbatim>\<open>_randomColor\<close>: \<^verbatim>\<open>colors[Math.floor(u * colors.length)]\<close>.\<close>

definition randomColor :: "CardEffect \<Rightarrow> real \<Rightarrow> Color option" where
  "randomColor e u =
     (let randomColor = \<lfloor>u * real (length (colors (options e)))\<rfloor>
      in if 0 \<le> randomColor \<and> randomColor < int (length (colors (options e)))
         then Some (colors (options e) ! nat randomColor)
         else None)"

text \<open>\<^verbatim>\<open>_resetCanvas\<close>: one \<^verbatim>\<open>clearRect\<close> over the whole canvas.\<close>

definition resetCanvas :: "CardEffect \<Rightarrow> CardEffect" where
  "resetCanvas e =
     e\<lparr>ctx := (ctx e)\<lparr>calls :=
        calls (ctx e) @ [ClearRect 0 0 (width (canvas e)) (height (canvas e))]\<rparr>\<rparr>"

text \<open>
  \<^verbatim>\<open>_drawSquare\<close>: reading \<^verbatim>\<open>square.color.r\<close> of an undefined colour throws a TypeError
  before anything is assigned; otherwise the fill style is set and the rectangle filled.
\<close>

definition drawSquare :: "CardEffectOptions \<Rightarrow> Square \<Rightarrow> Context2D \<Rightarrow> error + Context2D" where
  "drawSquare opts square c =
     (case color square of
        None \<Rightarrow> Inl TypeError
      | Some col \<Rightarrow>
          (let style = Rgba (r col) (g col) (b col) (opacity square)
           in Inr (c\<lparr>fillStyle := style,
                     calls := calls c @
                       [FillRect style (x square) (y square) (squareSize opts) (squareSize opts)]\<rparr>)))"

definition onMouseEnter :: "CardEffect \<Rightarrow> CardEffect" where
  "onMouseEnter e = e\<lparr>mouseInCard := True\<rparr>"

definition onMouseLeave :: "CardEffect \<Rightarrow> CardEffect" where
  "onMouseLeave e = e\<lparr>mouseInCard := False\<rparr>"

subsection \<open>Grid layout: \<^verbatim>\<open>_resetSquaresPoints\<close>\<close>

text \<open>
  The body of the inner loop, for one \<open>row\<close> and \<open>col\<close>, in two parts: the object that
  is pushed, and the push with the update of \<^verbatim>\<open>_maxPointDistance\<close>. \<open>k\<close> is the number
  of \<^verbatim>\<open>Math.random()\<close> calls made so far: the object literal calls \<^verbatim>\<open>_randomSpeed\<close>
  first and \<^verbatim>\<open>_randomColor\<close> second. (\<open>x0\<close>, \<open>y0\<close> are the source's \<^verbatim>\<open>x\<close>, \<^verbatim>\<open>y\<close>;
  \<open>dist\<close> is its local \<^verbatim>\<open>distanceFromCenter\<close>; \<^verbatim>\<open>Math.pow(v, 2)\<close> is \<open>v\<^sup>2\<close>.)
\<close>

definition newSquare :: "CardEffect \<Rightarrow> (nat \<Rightarrow> real) \<Rightarrow> nat \<Rightarrow> nat \<Rightarrow> nat \<Rightarrow> Square" where
  "newSquare e rnd row col k =
     (let x0 = real col * (cellSize (options e) + gapSize (options e));
          y0 = real row * (cellSize (options e) + gapSize (options e));
          squareX = x0 + (cellSize (options e) - squareSize (options e)) / 2;
          squareY = y0 + (cellSize (options e) - squareSize (options e)) / 2;
          dist = sqrt ((squareX - width (canvas e) / 2) ^ 2
                     + (squareY - height (canvas e) / 2) ^ 2)
      in \<lparr> x = squareX, y = squareY, opacity = 0,
           speed = randomSpeed e (rnd k),
           color = randomColor e (rnd (Suc k)),
           distanceFromCenter = dist \<rparr>)"

definition pushSquare :: "(nat \<Rightarrow> real) \<Rightarrow> nat \<Rightarrow> nat \<Rightarrow> CardEffect \<times> nat \<Rightarrow> CardEffect \<times> nat" where
  "pushSquare rnd row col s =
     (let e = fst s; k = snd s;
          square = newSquare e rnd row col k;
          e1 = e\<lparr>squares := squares e @ [square]\<rparr>
      in (if maxPointDistance e1 < distanceFromCenter square
          then e1\<lparr>maxPointDistance := distanceFromCenter square\<rparr>
          else e1,
          Suc (Suc k)))"

lemma options_pushSquare [simp]:
  "options (fst (pushSquare rnd row col s)) = options (fst s)"
  by (simp add: pushSquare_def Let_def)

lemma canvas_pushSquare [simp]:
  "canvas (fst (pushSquare rnd row col s)) = canvas (fst s)"
  by (simp add: pushSquare_def Let_def)

lemma loop_measure:
  "real i < c \<Longrightarrow> nat \<lceil>c\<rceil> - Suc i < nat \<lceil>c\<rceil> - i"
  by linarith

text \<open>\<^verbatim>\<open>for (let col = 0; col < gridCells; col++)\<close>, entered at \<open>col\<close>.\<close>

function colLoop :: "(nat \<Rightarrow> real) \<Rightarrow> nat \<Rightarrow> nat \<Rightarrow> CardEffect \<times> nat \<Rightarrow> CardEffect \<times> nat" where
  "colLoop rnd row col s =
     (if real col < gridCells (options (fst s))
      then colLoop rnd row (Suc col) (pushSquare rnd row col s)
      else s)"
  by pat_completeness auto
termination
  by (relation "measure (\<lambda>(rnd, row, col, s). nat \<lceil>gridCells (options (fst s))\<rceil> - col)")
     (auto intro: loop_measure)

declare colLoop.simps [simp del]

lemma options_colLoop [simp]:
  "options (fst (colLoop rnd row col s)) = options (fst s)"
  by (induction rnd row col s rule: colLoop.induct) (subst colLoop.simps, simp)

lemma canvas_colLoop [simp]:
  "canvas (fst (colLoop rnd row col s)) = canvas (fst s)"
  by (induction rnd row col s rule: colLoop.induct) (subst colLoop.simps, simp)

text \<open>\<^verbatim>\<open>for (let row = 0; row < gridCells; row++)\<close>, entered at \<open>row\<close>.\<close>

function rowLoop :: "(nat \<Rightarrow> real) \<Rightarrow> nat \<Rightarrow> CardEffect \<times> nat \<Rightarrow> CardEffect \<times> nat" where
  "rowLoop rnd row s =
     (if real row < gridCells (options (fst s))
      then rowLoop rnd (Suc row) (colLoop rnd row 0 s)
      else s)"
  by pat_completeness auto
termination
  by (relation "measure (\<lambda>(rnd, row, s). nat \<lceil>gridCells (options (fst s))\<rceil> - row)")
     (auto intro: loop_measure)

declare rowLoop.simps [simp del]

definition resetSquaresPoints :: "(nat \<Rightarrow> real) \<Rightarrow> CardEffect \<Rightarrow> CardEffect" where
  "resetSquaresPoints rnd e = fst (rowLoop rnd 0 (e\<lparr>maxPointDistance := 0\<rparr>, 0))"

subsection \<open>The constructor\<close>

text \<open>
  \<open>cv\<close> is the canvas element, \<open>cx\<close> the context \<^verbatim>\<open>getContext("2d")\<close> returns for it, and
  \<open>opts\<close> the optional second argument. A \<^verbatim>\<open>throw\<close> leaves no instance: the result is the
  error alone. The canvas keeps of the two sides assigned what \<open>canvasDimension\<close> stores.
  The two listeners registered at the end are the events of \<open>dispatch\<close> below.
\<close>

definition CardEffect_new ::
  "Canvas \<Rightarrow> Context2D \<Rightarrow> CardEffectOptions option \<Rightarrow> (nat \<Rightarrow> real) \<Rightarrow> error + CardEffect" where
  "CardEffect_new cv cx opts rnd =
     (let opt = (case opts of None \<Rightarrow> DEFAULT_OPTIONS | Some given \<Rightarrow> given)
      in if maxPointFadeSpeed opt < minPointFadeSpeed opt
         then Inl (Error ''Max speed must be greater than min speed'')
         else if pointFadeSpeedFactor opt \<le> 0
         then Inl (Error ''Factor speed must be greater than 0'')
         else
           Inr (resetSquaresPoints rnd
             \<lparr> options = opt,
               canvas = cv\<lparr>
                 width := canvasDimension 300
                   (gridCells opt * (cellSize opt + gapSize opt) - gapSize opt),
                 height := canvasDimension 150
                   (gridCells opt * (cellSize opt + gapSize opt) - gapSize opt)\<rparr>,
               ctx = cx,
               squares = [],
               mouseInCard = False,
               opacityTouchFactor = 0,
               maxPointDistance = 0,
               fadeSpeed = 0 \<rparr>))"

subsection \<open>\<^verbatim>\<open>drawGrid\<close>\<close>

text \<open>
  The \<^verbatim>\<open>for\<close> loop over \<^verbatim>\<open>_squares\<close>; a throwing \<^verbatim>\<open>_drawSquare\<close> ends it, and the
  calls already made stay made.
\<close>

fun drawSquares :: "CardEffectOptions \<Rightarrow> Square list \<Rightarrow> Context2D \<Rightarrow> Context2D \<times> error option" where
  "drawSquares opts [] c = (c, None)"
| "drawSquares opts (square # rest) c =
     (case drawSquare opts square c of
        Inl err \<Rightarrow> (c, Some err)
      | Inr c' \<Rightarrow> drawSquares opts rest c')"

text \<open>The result is the effect after the call and the error thrown, if any.\<close>

definition drawGrid :: "CardEffect \<Rightarrow> CardEffect \<times> error option" where
  "drawGrid e =
     (let e1 = resetCanvas e;
          res = drawSquares (options e1) (squares e1) (ctx e1)
      in (e1\<lparr>ctx := fst res\<rparr>, snd res))"

subsection \<open>\<^verbatim>\<open>animateCardEffect\<close>\<close>

text \<open>
  The callback of \<^verbatim>\<open>_squares.forEach\<close>, step by step: the wave gate (source lines
  121 to 127), the opacity integration (line 129) and the bounce (lines 131 to 137).
\<close>

definition waveGate :: "CardEffect \<Rightarrow> Square \<Rightarrow> Square" where
  "waveGate e square =
     (if js_gt (js_div (distanceFromCenter square) (maxPointDistance e)) (fadeSpeed e)
         \<and> 0 < speed square
      then square\<lparr>speed := - \<bar>speed square\<bar>\<rparr>
      else square)"

definition integrateOpacity :: "CardEffect \<Rightarrow> Square \<Rightarrow> Square" where
  "integrateOpacity e square =
     square\<lparr>opacity := opacity square + speed square * pointFadeSpeedFactor (options e)\<rparr>"

definition bounce :: "Square \<Rightarrow> Square" where
  "bounce square =
     (if 1 < opacity square then square\<lparr>opacity := 1, speed := - speed square\<rparr>
      else if opacity square < 0 then square\<lparr>opacity := 0, speed := - speed square\<rparr>
      else square)"

definition updateSquare :: "CardEffect \<Rightarrow> Square \<Rightarrow> Square" where
  "updateSquare e square = bounce (integrateOpacity e (waveGate e square))"

text \<open>
  \<^verbatim>\<open>forEach\<close>: each square is updated in place and then drawn. When the draw throws, the
  square just updated keeps its update and the squares after it are not reached.
\<close>

fun forEachSquare ::
  "CardEffect \<Rightarrow> Square list \<Rightarrow> Context2D \<Rightarrow> Square list \<times> Context2D \<times> error option" where
  "forEachSquare e [] c = ([], c, None)"
| "forEachSquare e (square # rest) c =
     (let square' = updateSquare e square
      in case drawSquare (options e) square' c of
           Inl err \<Rightarrow> (square' # rest, c, Some err)
         | Inr c' \<Rightarrow>
             (let res = forEachSquare e rest c'
              in (square' # fst res, snd res)))"

text \<open>
  The easing of the two scalars (source lines 94 to 116), the write of
  \<^verbatim>\<open>style.opacity\<close> (line 118), then the loop over the squares.
\<close>

definition easeScalars :: "CardEffect \<Rightarrow> CardEffect" where
  "easeScalars e =
     (if mouseInCard e then
        e\<lparr>fadeSpeed :=
             (if fadeSpeed e < 1 then fadeSpeed e + fadeSpeedFactor (options e) else 1),
          opacityTouchFactor :=
             (if opacityTouchFactor e < 1
              then opacityTouchFactor e + cardSpeedFactor (options e) else 1)\<rparr>
      else
        e\<lparr>fadeSpeed :=
             (if 0 < fadeSpeed e then fadeSpeed e - fadeSpeedFactor (options e) else 0),
          opacityTouchFactor :=
             (if 0 < opacityTouchFactor e
              then opacityTouchFactor e - cardSpeedFactor (options e) else 0)\<rparr>)"

definition animateCardEffect :: "CardEffect \<Rightarrow> CardEffect \<times> error option" where
  "animateCardEffect e =
     (let e1 = easeScalars (resetCanvas e);
          e2 = e1\<lparr>canvas := (canvas e1)\<lparr>style_opacity := Some (opacityTouchFactor e1)\<rparr>\<rparr>;
          res = forEachSquare e2 (squares e2) (ctx e2)
      in (e2\<lparr>squares := fst res, ctx := fst (snd res)\<rparr>, snd (snd res)))"

subsection \<open>Runs\<close>

text \<open>
  What the page does to an effect: the two pointer events call \<^verbatim>\<open>_onMouseEnter\<close> and
  \<^verbatim>\<open>_onMouseLeave\<close>, and every animation frame calls \<^verbatim>\<open>animateCardEffect\<close> (a tick).
\<close>

datatype event = MouseEnter | MouseLeave | AnimationFrame

fun dispatch :: "event \<Rightarrow> CardEffect \<Rightarrow> CardEffect" where
  "dispatch MouseEnter e = onMouseEnter e"
| "dispatch MouseLeave e = onMouseLeave e"
| "dispatch AnimationFrame e = fst (animateCardEffect e)"

fun run :: "event list \<Rightarrow> CardEffect \<Rightarrow> CardEffect" where
  "run [] e = e"
| "run (ev # evs) e = run evs (dispatch ev e)"

text \<open>\<open>ticks n e\<close>: \<open>n\<close> animation frames with no pointer event in between.\<close>

fun ticks :: "nat \<Rightarrow> CardEffect \<Rightarrow> CardEffect" where
  "ticks 0 e = e"
| "ticks (Suc n) e = ticks n (fst (animateCardEffect e))"

subsection \<open>Example inputs\<close>

definition exampleCanvas :: Canvas where
  "exampleCanvas = \<lparr> width = 300, height = 150, style_opacity = None \<rparr>"

definition exampleContext :: Context2D where
  "exampleContext = \<lparr> fillStyle = InitialStyle, calls = [] \<rparr>"

text \<open>A far square that is fading in, and a square at the centre.\<close>

definition farSquare :: Square where
  "farSquare = \<lparr> x = 0, y = 0, opacity = 1 / 2, speed = 5,
       color = Some \<lparr> r = 255, g = 255, b = 255 \<rparr>, distanceFromCenter = 10 \<rparr>"

definition centreSquare :: Square where
  "centreSquare = \<lparr> x = 10, y = 10, opacity = 0, speed = 4,
       color = Some \<lparr> r = 255, g = 0, b = 0 \<rparr>, distanceFromCenter = 0 \<rparr>"

definition exampleEffect :: CardEffect where
  "exampleEffect =
     \<lparr> options = DEFAULT_OPTIONS, canvas = exampleCanvas, ctx = exampleContext,
       squares = [farSquare, centreSquare], mouseInCard = False,
       opacityTouchFactor = 0, maxPointDistance = 10, fadeSpeed = 0 \<rparr>"

text \<open>
  The configuration of the scenario with a 2 by 2 grid, one with a zero
  \<^verbatim>\<open>pointFadeSpeedFactor\<close>, and a \<^verbatim>\<open>Math.random\<close> that always returns one half.
\<close>

definition scenarioOptions :: CardEffectOptions where
  "scenarioOptions = DEFAULT_OPTIONS\<lparr>gridCells := 2, cellSize := 10, gapSize := 0, squareSize := 10\<rparr>"

definition zeroFactorOptions :: CardEffectOptions where
  "zeroFactorOptions = DEFAULT_OPTIONS\<lparr>pointFadeSpeedFactor := 0\<rparr>"

definition exampleRandom :: "nat \<Rightarrow> real" where
  "exampleRandom k = 1 / 2"

text \<open>
  A grid of one cell whose square has size 0, so that its only square lies at the centre
  of the canvas: the effect \<^verbatim>\<open>new CardEffect\<close> builds from it, and the same with an
  empty colour list.
\<close>

definition pointOptions :: CardEffectOptions where
  "pointOptions = DEFAULT_OPTIONS\<lparr>gridCells := 1, cellSize := 10, squareSize := 0\<rparr>"

definition pointEffect :: CardEffect where
  "pointEffect =
     \<lparr> options = pointOptions,
       canvas = \<lparr> width = 10, height = 10, style_opacity = None \<rparr>,
       ctx = exampleContext,
       squares = [\<lparr> x = 5, y = 5, opacity = 0, speed = 11 / 2,
                    color = Some \<lparr> r = 255, g = 0, b = 0 \<rparr>, distanceFromCenter = 0 \<rparr>],
       mouseInCard = False, opacityTouchFactor = 0, maxPointDistance = 0, fadeSpeed = 0 \<rparr>"

definition degenerateOptions :: CardEffectOptions where
  "degenerateOptions = pointOptions\<lparr>colors := []\<rparr>"

definition degenerateEffect :: CardEffect where
  "degenerateEffect =
     \<lparr> options = degenerateOptions,
       canvas = \<lparr> width = 10, height = 10, style_opacity = None \<rparr>,
       ctx = exampleContext,
       squares = [\<lparr> x = 5, y = 5, opacity = 0, speed = 11 / 2, color = None,
                    distanceFromCenter = 0 \<rparr>],
       mouseInCard = False, opacityTouchFactor = 0, maxPointDistance = 0, fadeSpeed = 0 \<rparr>"

text \<open>
  One cell of size 37.5 filled by its square: the side is not a whole number.
\<close>

definition halfPixelOptions :: CardEffectOptions where
  "halfPixelOptions = DEFAULT_OPTIONS\<lparr>gridCells := 1, cellSize := 75 / 2, squareSize := 75 / 2\<rparr>"

definition halfPixelEffect :: CardEffect where
  "halfPixelEffect =
     \<lparr> options = halfPixelOptions,
       canvas = \<lparr> width = 37, height = 37, style_opacity = None \<rparr>,
       ctx = exampleContext,
       squares = [\<lparr> x = 0, y = 0, opacity = 0, speed = 11 / 2,
                    color = Some \<lparr> r = 255, g = 0, b = 0 \<rparr>,
                    distanceFromCenter = sqrt (1369 / 2) \<rparr>],
       mouseInCard = False, opacityTouchFactor = 0,
       maxPointDistance = sqrt (1369 / 2), fadeSpeed = 0 \<rparr>"

subsection \<open>Notions used by the properties\<close>

text \<open>
  The calls one \<^verbatim>\<open>drawGrid()\<close> makes on the context when called in state \<open>e\<close>: what it
  appends to the calls made before.
\<close>

definition drawnBy :: "CardEffect \<Rightarrow> draw_call list" where
  "drawnBy e = drop (length (calls (ctx e))) (calls (ctx (fst (drawGrid e))))"

text \<open>\<^verbatim>\<open>_maxPointDistance\<close> is the largest \<^verbatim>\<open>distanceFromCenter\<close> of the squares, or 0.\<close>

definition layoutInv :: "CardEffect \<Rightarrow> bool" where
  "layoutInv e = (maxPointDistance e = Max (insert 0 (distanceFromCenter ` set (squares e))))"

section \<open>Properties\<close>

subsection \<open>What one tick does to the squares\<close>

lemma updateSquare_cong:
  "options e = options e' \<Longrightarrow> maxPointDistance e = maxPointDistance e' \<Longrightarrow>
   fadeSpeed e = fadeSpeed e' \<Longrightarrow> updateSquare e = updateSquare e'"
  by (rule ext) (simp add: updateSquare_def waveGate_def integrateOpacity_def)

lemma forEachSquare_cong:
  "options e = options e' \<Longrightarrow> maxPointDistance e = maxPointDistance e' \<Longrightarrow>
   fadeSpeed e = fadeSpeed e' \<Longrightarrow> forEachSquare e sqs c = forEachSquare e' sqs c"
  by (induction sqs arbitrary: c) (auto simp: Let_def updateSquare_cong [of e e'] split: sum.splits)

lemma forEachSquare_rel:
  "list_all2 (\<lambda>sq sq'. sq' = updateSquare e sq \<or> sq' = sq) sqs (fst (forEachSquare e sqs c))"
proof (induction sqs arbitrary: c)
  case Nil
  show ?case by simp
next
  case (Cons sq rest)
  show ?case
  proof (cases "drawSquare (options e) (updateSquare e sq) c")
    case (Inl err)
    then show ?thesis by (simp add: list_all2_refl list.rel_refl)
  next
    case (Inr c')
    with Cons [of c'] show ?thesis by (simp add: Let_def)
  qed
qed

lemma forEachSquare_no_error:
  "snd (snd (forEachSquare e sqs c)) = None \<Longrightarrow>
   fst (forEachSquare e sqs c) = map (updateSquare e) sqs"
  by (induction sqs arbitrary: c) (auto simp: Let_def split: sum.splits)

lemma options_tick [simp]: "options (fst (animateCardEffect e)) = options e"
  by (simp add: animateCardEffect_def Let_def easeScalars_def resetCanvas_def)

lemma maxPointDistance_tick [simp]:
  "maxPointDistance (fst (animateCardEffect e)) = maxPointDistance e"
  by (simp add: animateCardEffect_def Let_def easeScalars_def resetCanvas_def)

lemma mouseInCard_tick [simp]: "mouseInCard (fst (animateCardEffect e)) = mouseInCard e"
  by (simp add: animateCardEffect_def Let_def easeScalars_def resetCanvas_def)

lemma fadeSpeed_tick:
  "fadeSpeed (fst (animateCardEffect e)) = fadeSpeed (easeScalars e)"
  by (simp add: animateCardEffect_def Let_def easeScalars_def resetCanvas_def)

lemma opacityTouchFactor_tick:
  "opacityTouchFactor (fst (animateCardEffect e)) = opacityTouchFactor (easeScalars e)"
  by (simp add: animateCardEffect_def Let_def easeScalars_def resetCanvas_def)

lemma squares_easeScalars [simp]: "squares (easeScalars e) = squares e"
  by (simp add: easeScalars_def)

lemma squares_resetCanvas [simp]: "squares (resetCanvas e) = squares e"
  by (simp add: resetCanvas_def)

lemma squares_tick:
  "\<exists>c. squares (fst (animateCardEffect e)) =
     fst (forEachSquare (fst (animateCardEffect e)) (squares e) c)"
proof -
  define e1 where "e1 = easeScalars (resetCanvas e)"
  define e2 where
    "e2 = e1\<lparr>canvas := (canvas e1)\<lparr>style_opacity := Some (opacityTouchFactor e1)\<rparr>\<rparr>"
  define e3 where "e3 = fst (animateCardEffect e)"
  have e3: "e3 = e2\<lparr>squares := fst (forEachSquare e2 (squares e2) (ctx e2)),
                    ctx := fst (snd (forEachSquare e2 (squares e2) (ctx e2)))\<rparr>"
    by (simp add: e3_def animateCardEffect_def Let_def e2_def e1_def)
  have "squares e2 = squares e"
    by (simp add: e2_def e1_def)
  moreover have "forEachSquare e2 (squares e) (ctx e2) = forEachSquare e3 (squares e) (ctx e2)"
    by (rule forEachSquare_cong) (simp_all add: e3)
  ultimately have "squares e3 = fst (forEachSquare e3 (squares e) (ctx e2))"
    by (simp add: e3)
  then show ?thesis
    unfolding e3_def by blast
qed

lemma tick_rel:
  "list_all2 (\<lambda>sq sq'. sq' = updateSquare (fst (animateCardEffect e)) sq \<or> sq' = sq)
     (squares e) (squares (fst (animateCardEffect e)))"
proof -
  obtain c where "squares (fst (animateCardEffect e)) =
     fst (forEachSquare (fst (animateCardEffect e)) (squares e) c)"
    using squares_tick by blast
  then show ?thesis
    using forEachSquare_rel [of "fst (animateCardEffect e)" "squares e" c] by simp
qed

lemma length_squares_tick [simp]:
  "length (squares (fst (animateCardEffect e))) = length (squares e)"
  using tick_rel [of e] by (simp add: list_all2_lengthD)

lemma tick_nth:
  assumes "i < length (squares e)"
  shows "squares (fst (animateCardEffect e)) ! i = updateSquare (fst (animateCardEffect e)) (squares e ! i)
       \<or> squares (fst (animateCardEffect e)) ! i = squares e ! i"
  using tick_rel [of e] assms by (auto dest: list_all2_nthD)

lemma tick_reaches_all:
  assumes "snd (animateCardEffect e) = None"
  shows "squares (fst (animateCardEffect e))
           = map (updateSquare (fst (animateCardEffect e))) (squares e)"
proof -
  define e1 where "e1 = easeScalars (resetCanvas e)"
  define e2 where
    "e2 = e1\<lparr>canvas := (canvas e1)\<lparr>style_opacity := Some (opacityTouchFactor e1)\<rparr>\<rparr>"
  define e3 where "e3 = fst (animateCardEffect e)"
  have e3: "e3 = e2\<lparr>squares := fst (forEachSquare e2 (squares e2) (ctx e2)),
                    ctx := fst (snd (forEachSquare e2 (squares e2) (ctx e2)))\<rparr>"
    by (simp add: e3_def animateCardEffect_def Let_def e2_def e1_def)
  have "snd (snd (forEachSquare e2 (squares e2) (ctx e2))) = None"
    using assms by (simp add: animateCardEffect_def Let_def e2_def e1_def)
  then have all: "fst (forEachSquare e2 (squares e2) (ctx e2)) = map (updateSquare e2) (squares e2)"
    by (rule forEachSquare_no_error)
  have "squares e2 = squares e"
    by (simp add: e2_def e1_def)
  moreover have "updateSquare e2 = updateSquare e3"
    by (rule updateSquare_cong) (simp_all add: e3)
  ultimately have "squares e3 = map (updateSquare e3) (squares e)"
    using all by (simp add: e3)
  then show ?thesis
    by (simp only: e3_def)
qed

subsection \<open>The wave gate\<close>

text \<open>
  Claim C1. In every state (so on every tick and for every square): when the square's
  \<^verbatim>\<open>distanceFromCenter / _maxPointDistance\<close> is greater than \<^verbatim>\<open>_fadeSpeed\<close> and its
  speed is positive, the gate sets the speed to minus its absolute value; hence right
  after the gate every square whose ratio is greater than \<^verbatim>\<open>_fadeSpeed\<close> has a speed
  that is not positive. A tick that throws nothing puts every square through the gate,
  the integration and the bounce, with the \<^verbatim>\<open>_fadeSpeed\<close> it has just eased (the one
  the tick leaves in the state).
\<close>

theorem wave_gate:
  "(js_gt (js_div (distanceFromCenter square) (maxPointDistance e)) (fadeSpeed e)
      \<and> 0 < speed square \<longrightarrow> speed (waveGate e square) = - \<bar>speed square\<bar>)
   \<and> (js_gt (js_div (distanceFromCenter square) (maxPointDistance e)) (fadeSpeed e)
      \<longrightarrow> speed (waveGate e square) \<le> 0)
   \<and> (snd (animateCardEffect e) = None \<longrightarrow>
        squares (fst (animateCardEffect e))
          = map (\<lambda>square. bounce (integrateOpacity (fst (animateCardEffect e))
                               (waveGate (fst (animateCardEffect e)) square)))
              (squares e))"
  using tick_reaches_all [of e] by (simp add: waveGate_def updateSquare_def)

theorem wave_gate_witness:
  "js_gt (js_div (distanceFromCenter farSquare) (maxPointDistance exampleEffect))
      (fadeSpeed exampleEffect)
   \<and> 0 < speed farSquare
   \<and> speed (waveGate exampleEffect farSquare) = - 5
   \<and> snd (animateCardEffect exampleEffect) = None
   \<and> map speed (squares (fst (animateCardEffect exampleEffect))) = [- 5, 4]"
proof -
  have far: "js_gt (js_div (distanceFromCenter farSquare) (maxPointDistance exampleEffect))
      (fadeSpeed exampleEffect)"
    by (simp add: farSquare_def exampleEffect_def js_div_def)
  have pos: "0 < speed farSquare"
    by (simp add: farSquare_def)
  have "speed (waveGate exampleEffect farSquare) = - \<bar>speed farSquare\<bar>"
    using wave_gate [of farSquare exampleEffect] far pos by blast
  then have gated: "speed (waveGate exampleEffect farSquare) = - 5"
    by (simp add: farSquare_def)
  have ok: "snd (animateCardEffect exampleEffect) = None"
    by (simp add: animateCardEffect_def Let_def exampleEffect_def farSquare_def centreSquare_def
          drawSquare_def updateSquare_def bounce_def integrateOpacity_def waveGate_def)
  have "map speed (squares (fst (animateCardEffect exampleEffect))) = [- 5, 4]"
    by (simp add: animateCardEffect_def Let_def easeScalars_def resetCanvas_def
          exampleEffect_def farSquare_def centreSquare_def DEFAULT_OPTIONS_def
          drawSquare_def updateSquare_def bounce_def integrateOpacity_def waveGate_def js_div_def)
  with far pos gated ok show ?thesis
    by blast
qed

subsection \<open>The opacity invariant\<close>

lemma opacity_updateSquare:
  "0 \<le> opacity (updateSquare e square) \<and> opacity (updateSquare e square) \<le> 1"
  by (simp add: updateSquare_def bounce_def integrateOpacity_def)

lemma dispatch_nth:
  assumes "i < length (squares e)"
  shows "squares (dispatch ev e) ! i = updateSquare (dispatch ev e) (squares e ! i)
       \<or> squares (dispatch ev e) ! i = squares e ! i"
  using assms by (cases ev) (simp_all add: onMouseEnter_def onMouseLeave_def tick_nth)

lemma length_squares_dispatch [simp]: "length (squares (dispatch ev e)) = length (squares e)"
  by (cases ev) (simp_all add: onMouseEnter_def onMouseLeave_def)

lemma length_squares_run [simp]: "length (squares (run evs e)) = length (squares e)"
  by (induction evs arbitrary: e) simp_all

text \<open>
  Claim C2. A square whose opacity starts within \<open>[0, 1]\<close> has its opacity within
  \<open>[0, 1]\<close> after every tick, in every run of ticks and pointer events, whatever the
  configuration and the speeds are.
\<close>

theorem opacity_invariant:
  assumes "i < length (squares e)"
    and "0 \<le> opacity (squares e ! i)" and "opacity (squares e ! i) \<le> 1"
  shows "0 \<le> opacity (squares (run evs e) ! i) \<and> opacity (squares (run evs e) ! i) \<le> 1"
  using assms
proof (induction evs arbitrary: e)
  case Nil
  then show ?case by simp
next
  case (Cons ev evs)
  have "0 \<le> opacity (squares (dispatch ev e) ! i) \<and> opacity (squares (dispatch ev e) ! i) \<le> 1"
    using dispatch_nth [of i e ev] Cons.prems opacity_updateSquare [of "dispatch ev e" "squares e ! i"]
    by auto
  with Cons.IH [of "dispatch ev e"] Cons.prems(1) show ?case by simp
qed


theorem opacity_invariant_witness:
  "0 < length (squares exampleEffect)
   \<and> 0 \<le> opacity (squares exampleEffect ! 0)
   \<and> opacity (squares exampleEffect ! 0) \<le> 1
   \<and> 0 \<le> opacity (squares (run [MouseEnter, AnimationFrame, AnimationFrame] exampleEffect) ! 0)
   \<and> opacity (squares (run [MouseEnter, AnimationFrame, AnimationFrame] exampleEffect) ! 0) \<le> 1"
proof -
  have len: "0 < length (squares exampleEffect)"
    by (simp add: exampleEffect_def)
  have lo: "0 \<le> opacity (squares exampleEffect ! 0)"
    by (simp add: exampleEffect_def farSquare_def)
  have hi: "opacity (squares exampleEffect ! 0) \<le> 1"
    by (simp add: exampleEffect_def farSquare_def)
  show ?thesis
    using len lo hi
      opacity_invariant [OF len lo hi, of "[MouseEnter, AnimationFrame, AnimationFrame]"]
    by simp
qed

subsection \<open>What a tick leaves alone\<close>

lemma map_eq_of_rel:
  "list_all2 R xs ys \<Longrightarrow> (\<And>a c. R a c \<Longrightarrow> f c = f a) \<Longrightarrow> map f ys = map f xs"
  by (induction rule: list_all2_induct) simp_all

lemma updateSquare_frame:
  "x (updateSquare e square) = x square"
  "y (updateSquare e square) = y square"
  "color (updateSquare e square) = color square"
  "distanceFromCenter (updateSquare e square) = distanceFromCenter square"
  "\<bar>speed (updateSquare e square)\<bar> = \<bar>speed square\<bar>"
  by (simp_all add: updateSquare_def bounce_def integrateOpacity_def waveGate_def)

text \<open>
  Claim C9. A tick keeps the number of squares, and for every square its \<open>x\<close>, \<open>y\<close>,
  \<open>color\<close> and \<open>distanceFromCenter\<close> and the absolute value of its speed.
\<close>

theorem tick_frame:
  "length (squares (fst (animateCardEffect e))) = length (squares e)
   \<and> map x (squares (fst (animateCardEffect e))) = map x (squares e)
   \<and> map y (squares (fst (animateCardEffect e))) = map y (squares e)
   \<and> map color (squares (fst (animateCardEffect e))) = map color (squares e)
   \<and> map distanceFromCenter (squares (fst (animateCardEffect e)))
       = map distanceFromCenter (squares e)
   \<and> map (\<lambda>square. \<bar>speed square\<bar>) (squares (fst (animateCardEffect e)))
       = map (\<lambda>square. \<bar>speed square\<bar>) (squares e)"
proof -
  note rel = tick_rel [of e]
  have "map x (squares (fst (animateCardEffect e))) = map x (squares e)"
    by (rule map_eq_of_rel [OF rel]) (auto simp: updateSquare_frame)
  moreover have "map y (squares (fst (animateCardEffect e))) = map y (squares e)"
    by (rule map_eq_of_rel [OF rel]) (auto simp: updateSquare_frame)
  moreover have "map color (squares (fst (animateCardEffect e))) = map color (squares e)"
    by (rule map_eq_of_rel [OF rel]) (auto simp: updateSquare_frame)
  moreover have "map distanceFromCenter (squares (fst (animateCardEffect e)))
       = map distanceFromCenter (squares e)"
    by (rule map_eq_of_rel [OF rel]) (auto simp: updateSquare_frame)
  moreover have "map (\<lambda>square. \<bar>speed square\<bar>) (squares (fst (animateCardEffect e)))
       = map (\<lambda>square. \<bar>speed square\<bar>) (squares e)"
    by (rule map_eq_of_rel [OF rel]) (auto simp: updateSquare_frame)
  ultimately show ?thesis by simp
qed

subsection \<open>Outside the lit radius\<close>

lemma gated_square_dims:
  assumes "0 \<le> f" and "0 < m" and "0 \<le> opacity square"
    and "fadeSpeed e < distanceFromCenter square / m"
    and "maxPointDistance e = m" and "pointFadeSpeedFactor (options e) = f"
  shows "opacity (updateSquare e square) \<le> opacity square"
proof -
  have gate: "speed (waveGate e square) \<le> 0"
    using assms by (simp add: waveGate_def js_div_def)
  have op: "opacity (waveGate e square) = opacity square"
    by (simp add: waveGate_def)
  have "speed (waveGate e square) * f \<le> 0"
    using gate assms(1) by (simp add: mult_nonpos_nonneg)
  then have "opacity (integrateOpacity e (waveGate e square)) \<le> opacity square"
    using op assms(6) by (simp add: integrateOpacity_def)
  then show ?thesis
    using assms(3) by (simp add: updateSquare_def bounce_def)
qed

text \<open>
  Claim C10. With a positive \<^verbatim>\<open>pointFadeSpeedFactor\<close> and a positive
  \<^verbatim>\<open>_maxPointDistance\<close>, a square whose opacity is within \<open>[0, 1]\<close> and whose
  \<^verbatim>\<open>distanceFromCenter / _maxPointDistance\<close> is greater than the \<^verbatim>\<open>_fadeSpeed\<close> of this
  tick's gate check (the eased value, which the tick leaves in the state) is no brighter
  after the tick than before it.
\<close>

theorem outside_wave_never_brightens:
  assumes "0 < pointFadeSpeedFactor (options e)"
    and "0 < maxPointDistance e"
    and "i < length (squares e)"
    and "0 \<le> opacity (squares e ! i)" and "opacity (squares e ! i) \<le> 1"
    and "fadeSpeed (fst (animateCardEffect e))
           < distanceFromCenter (squares e ! i) / maxPointDistance e"
  shows "opacity (squares (fst (animateCardEffect e)) ! i) \<le> opacity (squares e ! i)"
proof -
  have "opacity (updateSquare (fst (animateCardEffect e)) (squares e ! i))
          \<le> opacity (squares e ! i)"
    by (rule gated_square_dims [where m = "maxPointDistance e"
            and f = "pointFadeSpeedFactor (options e)"])
       (use assms in simp_all)
  then show ?thesis
    using tick_nth [OF assms(3)] by auto
qed

theorem outside_wave_never_brightens_witness:
  "0 < pointFadeSpeedFactor (options exampleEffect)
   \<and> 0 < maxPointDistance exampleEffect
   \<and> 0 < length (squares exampleEffect)
   \<and> 0 \<le> opacity (squares exampleEffect ! 0)
   \<and> opacity (squares exampleEffect ! 0) \<le> 1
   \<and> fadeSpeed (fst (animateCardEffect exampleEffect))
         < distanceFromCenter (squares exampleEffect ! 0) / maxPointDistance exampleEffect
   \<and> opacity (squares (fst (animateCardEffect exampleEffect)) ! 0)
         \<le> opacity (squares exampleEffect ! 0)"
proof -
  have f: "0 < pointFadeSpeedFactor (options exampleEffect)"
    by (simp add: exampleEffect_def DEFAULT_OPTIONS_def)
  have m: "0 < maxPointDistance exampleEffect"
    by (simp add: exampleEffect_def)
  have len: "0 < length (squares exampleEffect)"
    by (simp add: exampleEffect_def)
  have lo: "0 \<le> opacity (squares exampleEffect ! 0)"
    by (simp add: exampleEffect_def farSquare_def)
  have hi: "opacity (squares exampleEffect ! 0) \<le> 1"
    by (simp add: exampleEffect_def farSquare_def)
  have far: "fadeSpeed (fst (animateCardEffect exampleEffect))
         < distanceFromCenter (squares exampleEffect ! 0) / maxPointDistance exampleEffect"
    by (simp add: fadeSpeed_tick easeScalars_def exampleEffect_def farSquare_def)
  show ?thesis
    using f m len lo hi far outside_wave_never_brightens [OF f m len lo hi far]
    by simp
qed


subsection \<open>\<^verbatim>\<open>drawGrid\<close> draws and changes nothing else\<close>


lemma drawSquares_calls:
  "\<exists>ys err. \<forall>c. calls (fst (drawSquares opts sqs c)) = calls c @ ys
        \<and> snd (drawSquares opts sqs c) = err"
proof (induction sqs)
  case Nil
  show ?case by simp
next
  case (Cons sq rest)
  then obtain ys err where rest:
    "\<And>c. calls (fst (drawSquares opts rest c)) = calls c @ ys"
    "\<And>c. snd (drawSquares opts rest c) = err"
    by blast
  show ?case
  proof (cases "color sq")
    case None
    then have "\<forall>c. calls (fst (drawSquares opts (sq # rest) c)) = calls c @ []
        \<and> snd (drawSquares opts (sq # rest) c) = Some TypeError"
      by (simp add: drawSquare_def)
    then show ?thesis by blast
  next
    case (Some col)
    then have "\<forall>c. calls (fst (drawSquares opts (sq # rest) c)) =
        calls c @ (FillRect (Rgba (r col) (g col) (b col) (opacity sq)) (x sq) (y sq)
                     (squareSize opts) (squareSize opts) # ys)
        \<and> snd (drawSquares opts (sq # rest) c) = err"
      by (simp add: drawSquare_def Let_def rest)
    then show ?thesis by blast
  qed
qed

lemma drawGrid_fields:
  "options (fst (drawGrid e)) = options e"
  "canvas (fst (drawGrid e)) = canvas e"
  "squares (fst (drawGrid e)) = squares e"
  "mouseInCard (fst (drawGrid e)) = mouseInCard e"
  "opacityTouchFactor (fst (drawGrid e)) = opacityTouchFactor e"
  "maxPointDistance (fst (drawGrid e)) = maxPointDistance e"
  "fadeSpeed (fst (drawGrid e)) = fadeSpeed e"
  by (simp_all add: drawGrid_def Let_def resetCanvas_def)

lemma drawGrid_output:
  assumes "options e' = options e" "canvas e' = canvas e" "squares e' = squares e"
  shows "snd (drawGrid e') = snd (drawGrid e)"
    and "\<exists>zs. calls (ctx (fst (drawGrid e'))) = calls (ctx e') @ zs
            \<and> calls (ctx (fst (drawGrid e))) = calls (ctx e) @ zs"
proof -
  obtain ys err where ys:
    "\<And>c. calls (fst (drawSquares (options e) (squares e) c)) = calls c @ ys"
    "\<And>c. snd (drawSquares (options e) (squares e) c) = err"
    using drawSquares_calls [of "options e" "squares e"] by blast
  show "snd (drawGrid e') = snd (drawGrid e)"
    using assms by (simp add: drawGrid_def Let_def resetCanvas_def ys)
  have "calls (ctx (fst (drawGrid e'))) =
          calls (ctx e') @ (ClearRect 0 0 (width (canvas e)) (height (canvas e)) # ys)"
    using assms by (simp add: drawGrid_def Let_def resetCanvas_def ys)
  moreover have "calls (ctx (fst (drawGrid e))) =
          calls (ctx e) @ (ClearRect 0 0 (width (canvas e)) (height (canvas e)) # ys)"
    by (simp add: drawGrid_def Let_def resetCanvas_def ys)
  ultimately show "\<exists>zs. calls (ctx (fst (drawGrid e'))) = calls (ctx e') @ zs
            \<and> calls (ctx (fst (drawGrid e))) = calls (ctx e) @ zs"
    by blast
qed

lemma drawnBy_cong:
  assumes "options e' = options e" "canvas e' = canvas e" "squares e' = squares e"
  shows "drawnBy e' = drawnBy e"
proof -
  obtain zs where "calls (ctx (fst (drawGrid e'))) = calls (ctx e') @ zs"
      and "calls (ctx (fst (drawGrid e))) = calls (ctx e) @ zs"
    using drawGrid_output(2) [OF assms] by blast
  then show ?thesis
    by (simp add: drawnBy_def)
qed

lemma drawGrid_appends: "calls (ctx (fst (drawGrid e))) = calls (ctx e) @ drawnBy e"
proof -
  obtain zs where "calls (ctx (fst (drawGrid e))) = calls (ctx e) @ zs"
    using drawGrid_output(2) [of e e] by blast
  then show ?thesis
    by (simp add: drawnBy_def)
qed

lemma drawGrids_fields:
  "options (((\<lambda>s. fst (drawGrid s)) ^^ n) e) = options e
   \<and> canvas (((\<lambda>s. fst (drawGrid s)) ^^ n) e) = canvas e
   \<and> squares (((\<lambda>s. fst (drawGrid s)) ^^ n) e) = squares e
   \<and> mouseInCard (((\<lambda>s. fst (drawGrid s)) ^^ n) e) = mouseInCard e
   \<and> opacityTouchFactor (((\<lambda>s. fst (drawGrid s)) ^^ n) e) = opacityTouchFactor e
   \<and> maxPointDistance (((\<lambda>s. fst (drawGrid s)) ^^ n) e) = maxPointDistance e
   \<and> fadeSpeed (((\<lambda>s. fst (drawGrid s)) ^^ n) e) = fadeSpeed e"
  by (induction n) (simp_all add: drawGrid_fields)

text \<open>
  Claim C8. \<^verbatim>\<open>drawGrid()\<close> changes no field of the effect (squares, easing scalars, hover
  flag, largest distance, options, canvas): it only makes calls on the context. Called any
  number \<open>n\<close> of times with no tick in between, the next call makes the same sequence of
  \<^verbatim>\<open>clearRect\<close> and \<^verbatim>\<open>fillRect\<close> calls, and ends the same way, as the first one.
\<close>

theorem drawGrid_idempotent:
  "squares (((\<lambda>s. fst (drawGrid s)) ^^ n) e) = squares e
   \<and> fadeSpeed (((\<lambda>s. fst (drawGrid s)) ^^ n) e) = fadeSpeed e
   \<and> opacityTouchFactor (((\<lambda>s. fst (drawGrid s)) ^^ n) e) = opacityTouchFactor e
   \<and> mouseInCard (((\<lambda>s. fst (drawGrid s)) ^^ n) e) = mouseInCard e
   \<and> maxPointDistance (((\<lambda>s. fst (drawGrid s)) ^^ n) e) = maxPointDistance e
   \<and> options (((\<lambda>s. fst (drawGrid s)) ^^ n) e) = options e
   \<and> canvas (((\<lambda>s. fst (drawGrid s)) ^^ n) e) = canvas e
   \<and> drawnBy (((\<lambda>s. fst (drawGrid s)) ^^ n) e) = drawnBy e
   \<and> snd (drawGrid (((\<lambda>s. fst (drawGrid s)) ^^ n) e)) = snd (drawGrid e)
   \<and> calls (ctx (fst (drawGrid e))) = calls (ctx e) @ drawnBy e"
proof -
  define e' where "e' = ((\<lambda>s. fst (drawGrid s)) ^^ n) e"
  have same: "options e' = options e" "canvas e' = canvas e" "squares e' = squares e"
    using drawGrids_fields [of n e] by (simp_all add: e'_def)
  have "drawnBy e' = drawnBy e"
    by (rule drawnBy_cong [OF same])
  moreover have "snd (drawGrid e') = snd (drawGrid e)"
    by (rule drawGrid_output(1) [OF same])
  moreover note drawGrid_appends [of e] drawGrids_fields [of n e]
  ultimately show ?thesis
    unfolding e'_def by blast
qed

theorem drawGrid_idempotent_witness:
  "drawnBy exampleEffect =
     [ClearRect 0 0 300 150,
      FillRect (Rgba 255 255 255 (1 / 2)) 0 0 25 25,
      FillRect (Rgba 255 0 0 0) 10 10 25 25]
   \<and> drawnBy (((\<lambda>s. fst (drawGrid s)) ^^ 3) exampleEffect) = drawnBy exampleEffect
   \<and> squares (((\<lambda>s. fst (drawGrid s)) ^^ 3) exampleEffect) = squares exampleEffect"
proof -
  have "drawnBy exampleEffect =
     [ClearRect 0 0 300 150,
      FillRect (Rgba 255 255 255 (1 / 2)) 0 0 25 25,
      FillRect (Rgba 255 0 0 0) 10 10 25 25]"
    by (simp add: drawnBy_def drawGrid_def resetCanvas_def drawSquare_def Let_def
          exampleEffect_def exampleCanvas_def exampleContext_def farSquare_def
          centreSquare_def DEFAULT_OPTIONS_def)
  then show ?thesis
    using drawGrid_idempotent [of 3 exampleEffect] by simp
qed

subsection \<open>The layout loops\<close>

lemma loop_guard: "(real i < c) = (i < nat \<lceil>c\<rceil>)"
  by linarith

lemma newSquare_cong:
  "options e' = options e \<Longrightarrow> canvas e' = canvas e \<Longrightarrow>
   newSquare e' rnd row col k = newSquare e rnd row col k"
  by (simp add: newSquare_def randomSpeed_def randomColor_def Let_def)

lemma squares_pushSquare:
  "squares (fst (pushSquare rnd row col s)) =
     squares (fst s) @ [newSquare (fst s) rnd row col (snd s)]"
  by (simp add: pushSquare_def Let_def)

lemma snd_pushSquare [simp]: "snd (pushSquare rnd row col s) = Suc (Suc (snd s))"
  by (simp add: pushSquare_def Let_def)

lemma newSquare_pushSquare [simp]:
  "newSquare (fst (pushSquare rnd row col s)) = newSquare (fst s)"
  by (intro ext newSquare_cong) simp_all

lemma newSquare_colLoop [simp]:
  "newSquare (fst (colLoop rnd row col s)) = newSquare (fst s)"
  by (intro ext newSquare_cong) simp_all

lemma colLoop_squares:
  "m = nat \<lceil>gridCells (options (fst s))\<rceil> \<Longrightarrow>
   squares (fst (colLoop rnd row col s)) =
     squares (fst s) @
     map (\<lambda>c. newSquare (fst s) rnd row c (snd s + 2 * (c - col))) [col..<m]
   \<and> snd (colLoop rnd row col s) = snd s + 2 * (m - col)"
proof (induction rnd row col s rule: colLoop.induct)
  case (1 rnd row col s)
  note m = \<open>m = nat \<lceil>gridCells (options (fst s))\<rceil>\<close>
  show ?case
  proof (cases "col < m")
    case False
    then have "\<not> real col < gridCells (options (fst s))"
      unfolding m loop_guard .
    then have stop: "colLoop rnd row col s = s"
      by (subst colLoop.simps) simp
    from False show ?thesis
      by (simp add: stop)
  next
    case True
    then have guard: "real col < gridCells (options (fst s))"
      unfolding m loop_guard .
    have step: "colLoop rnd row col s = colLoop rnd row (Suc col) (pushSquare rnd row col s)"
      by (subst colLoop.simps) (simp add: guard)
    have m': "m = nat \<lceil>gridCells (options (fst (pushSquare rnd row col s)))\<rceil>"
      by (simp add: m)
    have tail: "map (\<lambda>c. newSquare (fst (pushSquare rnd row col s)) rnd row c
                      (snd (pushSquare rnd row col s) + 2 * (c - Suc col))) [Suc col..<m]
              = map (\<lambda>c. newSquare (fst s) rnd row c (snd s + 2 * (c - col))) [Suc col..<m]"
    proof (rule map_cong [OF refl])
      fix c assume "c \<in> set [Suc col..<m]"
      then have "Suc col \<le> c"
        by simp
      then have "Suc (Suc (snd s)) + 2 * (c - Suc col) = snd s + 2 * (c - col)"
        by linarith
      then have "snd (pushSquare rnd row col s) + 2 * (c - Suc col) = snd s + 2 * (c - col)"
        by (simp only: snd_pushSquare)
      then show "newSquare (fst (pushSquare rnd row col s)) rnd row c
                      (snd (pushSquare rnd row col s) + 2 * (c - Suc col))
               = newSquare (fst s) rnd row c (snd s + 2 * (c - col))"
        by (simp only: newSquare_pushSquare)
    qed
    have "Suc (Suc (snd s)) + 2 * (m - Suc col) = snd s + 2 * (m - col)"
      using True by linarith
    then have count: "snd (pushSquare rnd row col s) + 2 * (m - Suc col) = snd s + 2 * (m - col)"
      by (simp only: snd_pushSquare)
    have split: "[col..<m] = col # [Suc col..<m]"
      using True by (rule upt_conv_Cons)
    have "squares (fst (colLoop rnd row col s)) =
            squares (fst (pushSquare rnd row col s)) @
            map (\<lambda>c. newSquare (fst s) rnd row c (snd s + 2 * (c - col))) [Suc col..<m]"
      and "snd (colLoop rnd row col s) = snd s + 2 * (m - col)"
      using "1.IH" [OF guard m'] by (simp_all only: step tail count)
    then show ?thesis
      by (simp add: squares_pushSquare split)
  qed
qed


lemma options_rowLoop [simp]: "options (fst (rowLoop rnd row s)) = options (fst s)"
  by (induction rnd row s rule: rowLoop.induct) (subst rowLoop.simps, simp)

lemma canvas_rowLoop [simp]: "canvas (fst (rowLoop rnd row s)) = canvas (fst s)"
  by (induction rnd row s rule: rowLoop.induct) (subst rowLoop.simps, simp)

lemma rowLoop_squares:
  "m = nat \<lceil>gridCells (options (fst s))\<rceil> \<Longrightarrow>
   squares (fst (rowLoop rnd row s)) =
     squares (fst s) @
     concat (map (\<lambda>r. map (\<lambda>c. newSquare (fst s) rnd r c (snd s + 2 * ((r - row) * m + c)))
                     [0..<m]) [row..<m])
   \<and> snd (rowLoop rnd row s) = snd s + 2 * ((m - row) * m)"
proof (induction rnd row s rule: rowLoop.induct)
  case (1 rnd row s)
  note m = \<open>m = nat \<lceil>gridCells (options (fst s))\<rceil>\<close>
  let ?s' = "colLoop rnd row 0 s"
  show ?case
  proof (cases "row < m")
    case False
    then have "\<not> real row < gridCells (options (fst s))"
      unfolding m loop_guard .
    then have stop: "rowLoop rnd row s = s"
      by (subst rowLoop.simps) simp
    from False show ?thesis
      by (simp add: stop)
  next
    case True
    then have guard: "real row < gridCells (options (fst s))"
      unfolding m loop_guard .
    have step: "rowLoop rnd row s = rowLoop rnd (Suc row) ?s'"
      by (subst rowLoop.simps) (simp add: guard)
    have m': "m = nat \<lceil>gridCells (options (fst ?s'))\<rceil>"
      by (simp add: m)
    have col: "squares (fst ?s') =
        squares (fst s) @ map (\<lambda>c. newSquare (fst s) rnd row c (snd s + 2 * c)) [0..<m]"
      and k: "snd ?s' = snd s + 2 * m"
      using colLoop_squares [OF m, of rnd row 0] by simp_all
    have tail: "map (\<lambda>r. map (\<lambda>c. newSquare (fst ?s') rnd r c
                (snd ?s' + 2 * ((r - Suc row) * m + c))) [0..<m]) [Suc row..<m]
         = map (\<lambda>r. map (\<lambda>c. newSquare (fst s) rnd r c
                (snd s + 2 * ((r - row) * m + c))) [0..<m]) [Suc row..<m]"
    proof (rule map_cong [OF refl])
      fix r assume "r \<in> set [Suc row..<m]"
      then have "Suc row \<le> r"
        by simp
      then have "r - row = Suc (r - Suc row)"
        by linarith
      then have eq: "(r - row) * m = m + (r - Suc row) * m"
        by simp
      have "snd ?s' + 2 * ((r - Suc row) * m + c) = snd s + 2 * ((r - row) * m + c)" for c
        unfolding k eq by (simp add: algebra_simps)
      then show "map (\<lambda>c. newSquare (fst ?s') rnd r c
                (snd ?s' + 2 * ((r - Suc row) * m + c))) [0..<m]
          = map (\<lambda>c. newSquare (fst s) rnd r c
                (snd s + 2 * ((r - row) * m + c))) [0..<m]"
        by (simp only: newSquare_colLoop)
    qed
    have "m - row = Suc (m - Suc row)"
      using True by linarith
    then have eq: "(m - row) * m = m + (m - Suc row) * m"
      by simp
    have count: "snd ?s' + 2 * ((m - Suc row) * m) = snd s + 2 * ((m - row) * m)"
      unfolding k eq by (simp add: algebra_simps)
    have split: "[row..<m] = row # [Suc row..<m]"
      using True by (rule upt_conv_Cons)
    have "squares (fst (rowLoop rnd row s)) =
            squares (fst ?s') @
            concat (map (\<lambda>r. map (\<lambda>c. newSquare (fst s) rnd r c
                (snd s + 2 * ((r - row) * m + c))) [0..<m]) [Suc row..<m])"
      and "snd (rowLoop rnd row s) = snd s + 2 * ((m - row) * m)"
      using "1.IH" [OF guard m'] by (simp_all only: step tail count)
    then show ?thesis
      by (simp add: col split)
  qed
qed

lemma nth_concat_uniform:
  "\<forall>xs \<in> set xss. length xs = m \<Longrightarrow> i < length xss \<Longrightarrow> j < m \<Longrightarrow>
   concat xss ! (i * m + j) = xss ! i ! j"
proof (induction xss arbitrary: i)
  case Nil
  then show ?case by simp
next
  case (Cons xs xss)
  show ?case
  proof (cases i)
    case 0
    with Cons.prems show ?thesis
      by (simp add: nth_append)
  next
    case (Suc i')
    have "Suc i' * m + j = length xs + (i' * m + j)"
      using Cons.prems(1) by simp
    then have "concat (xs # xss) ! (Suc i' * m + j) = concat xss ! (i' * m + j)"
      by (simp only: concat.simps nth_append_length_plus)
    with Suc Cons.IH [of i'] Cons.prems show ?thesis
      by simp
  qed
qed

lemma length_concat_uniform:
  "\<forall>xs \<in> set xss. length xs = m \<Longrightarrow> length (concat xss) = length xss * m"
  by (induction xss) simp_all

lemma layoutInv_pushSquare:
  "layoutInv (fst s) \<Longrightarrow> layoutInv (fst (pushSquare rnd row col s))"
proof -
  assume inv: "layoutInv (fst s)"
  define d where "d = distanceFromCenter (newSquare (fst s) rnd row col (snd s))"
  define D where "D = insert 0 (distanceFromCenter ` set (squares (fst s)))"
  have D: "finite D" "D \<noteq> {}"
    by (simp_all add: D_def)
  have old: "maxPointDistance (fst s) = Max D"
    using inv by (simp add: layoutInv_def D_def)
  have "insert 0 (distanceFromCenter ` set (squares (fst (pushSquare rnd row col s)))) = insert d D"
    by (auto simp: squares_pushSquare d_def D_def)
  moreover have "maxPointDistance (fst (pushSquare rnd row col s)) = max d (Max D)"
    by (simp add: pushSquare_def Let_def old d_def max_def)
  moreover have "Max (insert d D) = max d (Max D)"
    using D by (rule Max_insert)
  ultimately show ?thesis
    by (simp add: layoutInv_def)
qed

lemma layoutInv_colLoop:
  "layoutInv (fst s) \<Longrightarrow> layoutInv (fst (colLoop rnd row col s))"
proof (induction rnd row col s rule: colLoop.induct)
  case (1 rnd row col s)
  show ?case
  proof (cases "real col < gridCells (options (fst s))")
    case True
    with 1 show ?thesis
      by (subst colLoop.simps) (simp add: layoutInv_pushSquare)
  next
    case False
    with 1 show ?thesis
      by (subst colLoop.simps) simp
  qed
qed

lemma layoutInv_rowLoop:
  "layoutInv (fst s) \<Longrightarrow> layoutInv (fst (rowLoop rnd row s))"
proof (induction rnd row s rule: rowLoop.induct)
  case (1 rnd row s)
  show ?case
  proof (cases "real row < gridCells (options (fst s))")
    case True
    with 1 show ?thesis
      by (subst rowLoop.simps) (simp add: layoutInv_colLoop)
  next
    case False
    with 1 show ?thesis
      by (subst rowLoop.simps) simp
  qed
qed

subsection \<open>What the constructor builds\<close>

lemma layoutInv_start: "squares e = [] \<Longrightarrow> layoutInv (e\<lparr>maxPointDistance := 0\<rparr>)"
  by (simp add: layoutInv_def)

lemma new_Inr:
  assumes "CardEffect_new cv cx opts rnd = Inr e"
    and "cfg = (case opts of None \<Rightarrow> DEFAULT_OPTIONS | Some given \<Rightarrow> given)"
    and "m = nat \<lceil>gridCells cfg\<rceil>"
  shows "options e = cfg"
    and "canvas e = cv\<lparr>
           width := canvasDimension 300 (gridCells cfg * (cellSize cfg + gapSize cfg) - gapSize cfg),
           height := canvasDimension 150 (gridCells cfg * (cellSize cfg + gapSize cfg) - gapSize cfg)\<rparr>"
    and "squares e = concat (map (\<lambda>r. map (\<lambda>c. newSquare e rnd r c (2 * (r * m + c))) [0..<m]) [0..<m])"
    and "layoutInv e"
    and "\<not> maxPointFadeSpeed cfg < minPointFadeSpeed cfg" and "0 < pointFadeSpeedFactor cfg"
proof -
  define e0 where "e0 =
     \<lparr> options = cfg,
       canvas = cv\<lparr>
         width := canvasDimension 300 (gridCells cfg * (cellSize cfg + gapSize cfg) - gapSize cfg),
         height := canvasDimension 150 (gridCells cfg * (cellSize cfg + gapSize cfg) - gapSize cfg)\<rparr>,
       ctx = cx, squares = [], mouseInCard = False, opacityTouchFactor = 0,
       maxPointDistance = 0, fadeSpeed = 0 \<rparr>"
  define s0 where "s0 = (e0\<lparr>maxPointDistance := 0\<rparr>, 0::nat)"
  have valid: "\<not> maxPointFadeSpeed cfg < minPointFadeSpeed cfg \<and> \<not> pointFadeSpeedFactor cfg \<le> 0"
    using assms(1,2) by (auto simp: CardEffect_new_def Let_def split: if_splits)
  then show "\<not> maxPointFadeSpeed cfg < minPointFadeSpeed cfg" and "0 < pointFadeSpeedFactor cfg"
    by simp_all
  have e: "e = fst (rowLoop rnd 0 s0)"
    using assms(1,2) valid
    by (simp add: CardEffect_new_def Let_def resetSquaresPoints_def e0_def s0_def)
  have m: "m = nat \<lceil>gridCells (options (fst s0))\<rceil>"
    by (simp add: assms(3) s0_def e0_def)
  show "options e = cfg"
    by (simp add: e) (simp add: s0_def e0_def)
  show "canvas e = cv\<lparr>
           width := canvasDimension 300 (gridCells cfg * (cellSize cfg + gapSize cfg) - gapSize cfg),
           height := canvasDimension 150 (gridCells cfg * (cellSize cfg + gapSize cfg) - gapSize cfg)\<rparr>"
    by (simp add: e) (simp add: s0_def e0_def)
  have same: "newSquare (fst s0) = newSquare e"
    by (intro ext newSquare_cong) (simp_all add: e)
  have "squares e = squares (fst s0) @
     concat (map (\<lambda>r. map (\<lambda>c. newSquare (fst s0) rnd r c (snd s0 + 2 * ((r - 0) * m + c)))
                     [0..<m]) [0..<m])"
    unfolding e using rowLoop_squares [OF m, of rnd 0] by blast
  then show "squares e = concat (map (\<lambda>r. map (\<lambda>c. newSquare e rnd r c (2 * (r * m + c))) [0..<m]) [0..<m])"
    by (simp add: same) (simp add: s0_def e0_def)
  have "layoutInv (fst s0)"
    by (simp add: s0_def e0_def layoutInv_def)
  then show "layoutInv e"
    unfolding e by (rule layoutInv_rowLoop)
qed

lemma new_Inl_iff:
  assumes "cfg = (case opts of None \<Rightarrow> DEFAULT_OPTIONS | Some given \<Rightarrow> given)"
  shows "(\<exists>err. CardEffect_new cv cx opts rnd = Inl err)
     = (maxPointFadeSpeed cfg < minPointFadeSpeed cfg \<or> pointFadeSpeedFactor cfg \<le> 0)"
  using assms by (auto simp: CardEffect_new_def Let_def)

lemma new_length:
  assumes "CardEffect_new cv cx opts rnd = Inr e"
    and "cfg = (case opts of None \<Rightarrow> DEFAULT_OPTIONS | Some given \<Rightarrow> given)"
  shows "length (squares e) = nat \<lceil>gridCells cfg\<rceil> * nat \<lceil>gridCells cfg\<rceil>"
proof -
  define m where "m = nat \<lceil>gridCells cfg\<rceil>"
  have "length (concat (map (\<lambda>r. map (\<lambda>c. newSquare e rnd r c (2 * (r * m + c))) [0..<m]) [0..<m]))
      = length (map (\<lambda>r. map (\<lambda>c. newSquare e rnd r c (2 * (r * m + c))) [0..<m]) [0..<m]) * m"
    by (rule length_concat_uniform) auto
  then show ?thesis
    using new_Inr(3) [OF assms m_def] by (simp add: m_def)
qed

lemma new_nth:
  assumes "CardEffect_new cv cx opts rnd = Inr e"
    and "cfg = (case opts of None \<Rightarrow> DEFAULT_OPTIONS | Some given \<Rightarrow> given)"
    and "m = nat \<lceil>gridCells cfg\<rceil>" and "row < m" and "col < m"
  shows "squares e ! (row * m + col) = newSquare e rnd row col (2 * (row * m + col))"
proof -
  let ?xss = "map (\<lambda>r. map (\<lambda>c. newSquare e rnd r c (2 * (r * m + c))) [0..<m]) [0..<m]"
  have "concat ?xss ! (row * m + col) = ?xss ! row ! col"
    by (rule nth_concat_uniform) (use assms(4,5) in auto)
  then show ?thesis
    using new_Inr(3) [OF assms(1-3)] assms(4,5) by simp
qed

text \<open>
  Claim C4. With \<open>cfg\<close> the configuration in use (the argument, or the default options),
  construction throws, leaving no instance, exactly when
  \<^verbatim>\<open>maxPointFadeSpeed < minPointFadeSpeed\<close> or \<^verbatim>\<open>pointFadeSpeedFactor <= 0\<close>; otherwise it
  returns an effect whose squares number \<^verbatim>\<open>gridCells\<close> squared. (\<^verbatim>\<open>gridCells\<close> is a
  count: for a natural number \<open>n\<close> of cells there are \<open>n * n\<close> squares; the loops run
  \<open>\<lceil>gridCells\<rceil>\<close> times each whatever number is given.)
\<close>

theorem construction_validation:
  assumes "cfg = (case opts of None \<Rightarrow> DEFAULT_OPTIONS | Some given \<Rightarrow> given)"
  shows "((\<exists>err. CardEffect_new cv cx opts rnd = Inl err)
            = (maxPointFadeSpeed cfg < minPointFadeSpeed cfg \<or> pointFadeSpeedFactor cfg \<le> 0))
       \<and> ((\<exists>e. CardEffect_new cv cx opts rnd = Inr e
                \<and> length (squares e) = nat \<lceil>gridCells cfg\<rceil> * nat \<lceil>gridCells cfg\<rceil>
                \<and> (\<forall>n. gridCells cfg = real n \<longrightarrow> length (squares e) = n * n))
            = (\<not> (maxPointFadeSpeed cfg < minPointFadeSpeed cfg \<or> pointFadeSpeedFactor cfg \<le> 0)))"
proof -
  let ?bad = "maxPointFadeSpeed cfg < minPointFadeSpeed cfg \<or> pointFadeSpeedFactor cfg \<le> 0"
  have fails: "(\<exists>err. CardEffect_new cv cx opts rnd = Inl err) = ?bad"
    by (rule new_Inl_iff [OF assms])
  have count: "length (squares e) = nat \<lceil>gridCells cfg\<rceil> * nat \<lceil>gridCells cfg\<rceil>
            \<and> (\<forall>n. gridCells cfg = real n \<longrightarrow> length (squares e) = n * n)"
    if "CardEffect_new cv cx opts rnd = Inr e" for e
    using new_length [OF that assms] by auto
  have "(\<exists>e. CardEffect_new cv cx opts rnd = Inr e) = (\<not> ?bad)"
    using fails by (cases "CardEffect_new cv cx opts rnd") auto
  with count have "(\<exists>e. CardEffect_new cv cx opts rnd = Inr e
                \<and> length (squares e) = nat \<lceil>gridCells cfg\<rceil> * nat \<lceil>gridCells cfg\<rceil>
                \<and> (\<forall>n. gridCells cfg = real n \<longrightarrow> length (squares e) = n * n)) = (\<not> ?bad)"
    by blast
  with fails show ?thesis
    by blast
qed

theorem construction_validation_witness:
  "(\<exists>err. CardEffect_new exampleCanvas exampleContext (Some zeroFactorOptions) exampleRandom = Inl err)
   \<and> (\<exists>e. CardEffect_new exampleCanvas exampleContext (Some scenarioOptions) exampleRandom = Inr e
          \<and> length (squares e) = 4)"
proof -
  have "\<exists>err. CardEffect_new exampleCanvas exampleContext (Some zeroFactorOptions) exampleRandom = Inl err"
    using construction_validation
      [of zeroFactorOptions "Some zeroFactorOptions" exampleCanvas exampleContext exampleRandom]
    by (simp add: zeroFactorOptions_def DEFAULT_OPTIONS_def)
  moreover have "\<exists>e. CardEffect_new exampleCanvas exampleContext (Some scenarioOptions) exampleRandom = Inr e
          \<and> length (squares e) = 4"
  proof -
    have "gridCells scenarioOptions = real 2"
      by (simp add: scenarioOptions_def)
    moreover have "\<not> (maxPointFadeSpeed scenarioOptions < minPointFadeSpeed scenarioOptions
                \<or> pointFadeSpeedFactor scenarioOptions \<le> 0)"
      by (simp add: scenarioOptions_def DEFAULT_OPTIONS_def)
    ultimately show ?thesis
      using construction_validation
        [of scenarioOptions "Some scenarioOptions" exampleCanvas exampleContext exampleRandom]
      by auto
  qed
  ultimately show ?thesis
    by blast
qed

subsection \<open>Grid geometry\<close>

lemma canvasDimension_floor:
  assumes "0 \<le> v" and "v < 2147483648"
  shows "canvasDimension dflt v = of_int \<lfloor>v\<rfloor>"
proof -
  have lo: "0 \<le> \<lfloor>v\<rfloor>"
    using assms(1) by simp
  have "v < of_int 2147483648"
    using assms(2) by simp
  then have hi: "\<lfloor>v\<rfloor> < 2147483648"
    by (simp only: floor_less_iff)
  then have "\<lfloor>v\<rfloor> < 4294967296"
    by simp
  with lo have "\<lfloor>v\<rfloor> mod 4294967296 = \<lfloor>v\<rfloor>"
    by (rule mod_pos_pos_trivial)
  then have "toUnsignedLong v = \<lfloor>v\<rfloor>"
    using assms(1) by (simp add: toUnsignedLong_def)
  then show ?thesis
    using hi by (simp add: canvasDimension_def)
qed

lemma canvasDimension_whole:
  assumes "k \<le> 2147483647"
  shows "canvasDimension dflt (real k) = real k"
proof -
  have "real k < 2147483648"
    using assms by simp
  then have "canvasDimension dflt (real k) = of_int \<lfloor>real k\<rfloor>"
    by (intro canvasDimension_floor) simp_all
  then show ?thesis
    by simp
qed

lemma halfPixel_new:
  "CardEffect_new exampleCanvas exampleContext (Some halfPixelOptions) exampleRandom
     = Inr halfPixelEffect"
  by (simp add: CardEffect_new_def halfPixelOptions_def DEFAULT_OPTIONS_def Let_def
        resetSquaresPoints_def rowLoop.simps colLoop.simps pushSquare_def newSquare_def
        randomSpeed_def randomColor_def exampleRandom_def exampleCanvas_def halfPixelEffect_def
        canvasDimension_def toUnsignedLong_def power2_eq_square)

text \<open>
  Claim C7, as stated, fails where the side is not a whole number: for one cell of size
  37.5 the side is 37.5, the canvas stores the width 37, and the square at \<open>(0, 0)\<close>
  gets its distance to \<open>(18.5, 18.5)\<close>, not to \<open>(side / 2, side / 2) = (18.75, 18.75)\<close>.
\<close>

theorem fractional_side_centre:
  "CardEffect_new exampleCanvas exampleContext (Some halfPixelOptions) exampleRandom
     = Inr halfPixelEffect
   \<and> gridCells halfPixelOptions * (cellSize halfPixelOptions + gapSize halfPixelOptions)
       - gapSize halfPixelOptions = 75 / 2
   \<and> width (canvas halfPixelEffect) = 37
   \<and> height (canvas halfPixelEffect) = 37
   \<and> x (squares halfPixelEffect ! 0) = 0
   \<and> y (squares halfPixelEffect ! 0) = 0
   \<and> distanceFromCenter (squares halfPixelEffect ! 0) = sqrt (1369 / 2)
   \<and> distanceFromCenter (squares halfPixelEffect ! 0)
       \<noteq> sqrt ((x (squares halfPixelEffect ! 0) - (75 / 2) / 2)\<^sup>2
              + (y (squares halfPixelEffect ! 0) - (75 / 2) / 2)\<^sup>2)"
proof -
  have "sqrt (1369 / 2) \<noteq> sqrt ((0 - (75 / 2) / 2)\<^sup>2 + (0 - (75 / 2) / 2)\<^sup>2)"
    by (simp only: real_sqrt_eq_iff) (simp add: power2_eq_square)
  then show ?thesis
    by (simp only: halfPixel_new simp_thms)
       (simp add: halfPixelEffect_def halfPixelOptions_def DEFAULT_OPTIONS_def)
qed

text \<open>
  Claim C7, amended. For a grid of \<open>n\<close> by \<open>n\<close> cells the effect has \<open>n * n\<close> squares in
  row-major order; the square of row \<open>row\<close> and column \<open>col\<close> sits at
  \<^verbatim>\<open>col * (cellSize + gapSize) + (cellSize - squareSize) / 2\<close> and
  \<^verbatim>\<open>row * (cellSize + gapSize) + (cellSize - squareSize) / 2\<close>; its \<^verbatim>\<open>distanceFromCenter\<close>
  is the Euclidean distance from that corner to \<open>(width / 2, height / 2)\<close>, where \<open>width\<close>
  and \<open>height\<close> are what the canvas stores of the side
  \<^verbatim>\<open>gridCells * (cellSize + gapSize) - gapSize\<close> assigned to both: the side without its
  fraction when it lies from 0 to below \<open>2\<^sup>3\<^sup>1\<close>, hence the side itself when it is a whole
  number in that range (as in every configuration of the source);
  \<^verbatim>\<open>_maxPointDistance\<close> is the largest of these distances. The scenario of the claim
  (2 cells, cell size 10, no gap, square size 10) is the witness below.
\<close>

theorem grid_geometry:
  assumes "CardEffect_new cv cx opts rnd = Inr e"
    and "cfg = (case opts of None \<Rightarrow> DEFAULT_OPTIONS | Some given \<Rightarrow> given)"
    and "gridCells cfg = real n" and "row < n" and "col < n"
  shows "let side = real n * (cellSize cfg + gapSize cfg) - gapSize cfg;
             square = squares e ! (row * n + col)
         in length (squares e) = n * n
          \<and> width (canvas e) = canvasDimension 300 side
          \<and> height (canvas e) = canvasDimension 150 side
          \<and> (0 \<le> side \<and> side < 2147483648 \<longrightarrow>
                width (canvas e) = of_int \<lfloor>side\<rfloor> \<and> height (canvas e) = of_int \<lfloor>side\<rfloor>)
          \<and> (\<forall>k. side = real k \<and> k \<le> 2147483647 \<longrightarrow>
                width (canvas e) = side \<and> height (canvas e) = side)
          \<and> x square = real col * (cellSize cfg + gapSize cfg) + (cellSize cfg - squareSize cfg) / 2
          \<and> y square = real row * (cellSize cfg + gapSize cfg) + (cellSize cfg - squareSize cfg) / 2
          \<and> distanceFromCenter square
              = sqrt ((x square - width (canvas e) / 2)\<^sup>2 + (y square - height (canvas e) / 2)\<^sup>2)
          \<and> opacity square = 0
          \<and> maxPointDistance e = Max (insert 0 (distanceFromCenter ` set (squares e)))"
proof -
  define side where "side = real n * (cellSize cfg + gapSize cfg) - gapSize cfg"
  have n: "n = nat \<lceil>gridCells cfg\<rceil>"
    by (simp add: assms(3))
  have len: "length (squares e) = n * n"
    using new_length [OF assms(1,2)] n by simp
  have nth: "squares e ! (row * n + col) = newSquare e rnd row col (2 * (row * n + col))"
    using assms(4,5) by (intro new_nth [OF assms(1,2) n])
  have opts: "options e = cfg"
    by (rule new_Inr(1) [OF assms(1,2) n])
  have cv: "width (canvas e) = canvasDimension 300 side"
       "height (canvas e) = canvasDimension 150 side"
    using new_Inr(2) [OF assms(1,2) n] by (simp_all add: assms(3) side_def)
  have trunc: "width (canvas e) = of_int \<lfloor>side\<rfloor> \<and> height (canvas e) = of_int \<lfloor>side\<rfloor>"
    if "0 \<le> side" and "side < 2147483648"
    using that by (simp add: cv canvasDimension_floor)
  have whole: "width (canvas e) = side \<and> height (canvas e) = side"
    if "side = real k" and "k \<le> 2147483647" for k
    using that by (simp add: cv canvasDimension_whole)
  have mx: "maxPointDistance e = Max (insert 0 (distanceFromCenter ` set (squares e)))"
    using new_Inr(4) [OF assms(1,2) n] by (simp add: layoutInv_def)
  have sq: "x (squares e ! (row * n + col))
              = real col * (cellSize cfg + gapSize cfg) + (cellSize cfg - squareSize cfg) / 2"
      "y (squares e ! (row * n + col))
              = real row * (cellSize cfg + gapSize cfg) + (cellSize cfg - squareSize cfg) / 2"
      "opacity (squares e ! (row * n + col)) = 0"
      "distanceFromCenter (squares e ! (row * n + col))
          = sqrt ((x (squares e ! (row * n + col)) - width (canvas e) / 2)\<^sup>2
                + (y (squares e ! (row * n + col)) - height (canvas e) / 2)\<^sup>2)"
    unfolding nth by (simp_all add: opts newSquare_def Let_def)
  show ?thesis
    unfolding Let_def side_def [symmetric]
    using len cv trunc whole sq mx by blast
qed

lemma list4: "length xs = 4 \<Longrightarrow> xs = [xs ! 0, xs ! 1, xs ! 2, xs ! 3]"
  by (rule nth_equalityI) (auto simp: nth_Cons' less_Suc_eq eval_nat_numeral)

theorem grid_geometry_witness:
  "\<exists>e. CardEffect_new exampleCanvas exampleContext (Some scenarioOptions) exampleRandom = Inr e
      \<and> gridCells scenarioOptions = real 2
      \<and> length (squares e) = 4
      \<and> width (canvas e) = 20 \<and> height (canvas e) = 20
      \<and> map (\<lambda>square. (x square, y square)) (squares e) = [(0, 0), (10, 0), (0, 10), (10, 10)]
      \<and> maxPointDistance e = sqrt 200
      \<and> distanceFromCenter (squares e ! 3) = 0"
proof -
  have "\<not> (\<exists>err. CardEffect_new exampleCanvas exampleContext (Some scenarioOptions) exampleRandom = Inl err)"
    by (simp add: CardEffect_new_def scenarioOptions_def DEFAULT_OPTIONS_def)
  then obtain e where
    e: "CardEffect_new exampleCanvas exampleContext (Some scenarioOptions) exampleRandom = Inr e"
    by (cases "CardEffect_new exampleCanvas exampleContext (Some scenarioOptions) exampleRandom") auto
  have cfg: "scenarioOptions = (case Some scenarioOptions of None \<Rightarrow> DEFAULT_OPTIONS | Some given \<Rightarrow> given)"
    by simp
  have g: "gridCells scenarioOptions = real 2"
    by (simp add: scenarioOptions_def)
  note geo = grid_geometry [OF e cfg g]
  have side: "real 2 * (cellSize scenarioOptions + gapSize scenarioOptions)
                - gapSize scenarioOptions = real 20"
    by (simp add: scenarioOptions_def)
  have dims: "width (canvas e) = 20" "height (canvas e) = 20"
  proof -
    have lt: "(0::nat) < 2"
      by simp
    have "\<forall>k. real 20 = real k \<and> k \<le> 2147483647 \<longrightarrow>
            width (canvas e) = real 20 \<and> height (canvas e) = real 20"
      using geo [OF lt lt, unfolded Let_def side] by blast
    then have "real 20 = real 20 \<and> (20::nat) \<le> 2147483647 \<longrightarrow>
            width (canvas e) = real 20 \<and> height (canvas e) = real 20"
      by (rule spec)
    then have "width (canvas e) = real 20 \<and> height (canvas e) = real 20"
      by simp
    then show "width (canvas e) = 20" "height (canvas e) = 20"
      by simp_all
  qed
  have s0: "length (squares e) = 4"
      "x (squares e ! 0) = 0" "y (squares e ! 0) = 0"
      "distanceFromCenter (squares e ! 0) = sqrt 200"
      "maxPointDistance e = Max (insert 0 (distanceFromCenter ` set (squares e)))"
    using geo [of 0 0] by (simp_all add: Let_def dims) (simp_all add: scenarioOptions_def)
  have s1: "x (squares e ! Suc 0) = 10" "y (squares e ! Suc 0) = 0"
      "distanceFromCenter (squares e ! Suc 0) = 10"
    using geo [of 0 1] by (simp_all add: Let_def dims) (simp_all add: scenarioOptions_def)
  have s2: "x (squares e ! 2) = 0" "y (squares e ! 2) = 10"
      "distanceFromCenter (squares e ! 2) = 10"
    using geo [of 1 0] by (simp_all add: Let_def dims) (simp_all add: scenarioOptions_def)
  have s3: "x (squares e ! 3) = 10" "y (squares e ! 3) = 10"
      "distanceFromCenter (squares e ! 3) = 0"
    using geo [of 1 1] by (simp_all add: Let_def dims) (simp_all add: scenarioOptions_def)
  have sq: "squares e = [squares e ! 0, squares e ! 1, squares e ! 2, squares e ! 3]"
    using s0(1) by (rule list4)
  have pos: "map (\<lambda>square. (x square, y square)) (squares e) = [(0, 0), (10, 0), (0, 10), (10, 10)]"
    by (subst sq) (simp add: s0 s1 s2 s3)
  have "distanceFromCenter ` set (squares e) = {sqrt 200, 10, 0}"
    by (subst sq) (auto simp: s0 s1 s2 s3)
  moreover have "(10::real) \<le> sqrt 200"
    by (rule real_le_rsqrt) simp
  ultimately have mx: "maxPointDistance e = sqrt 200"
    by (simp add: s0(5) max_def)
  show ?thesis
    by (rule exI [of _ e]) (simp only: e g s0(1) dims pos mx s3(3) simp_thms)
qed

subsection \<open>Grids whose largest distance is zero\<close>

lemma degenerate_new:
  "CardEffect_new exampleCanvas exampleContext (Some degenerateOptions) exampleRandom
     = Inr degenerateEffect"
  by (simp add: CardEffect_new_def degenerateOptions_def pointOptions_def DEFAULT_OPTIONS_def Let_def
        resetSquaresPoints_def rowLoop.simps colLoop.simps pushSquare_def newSquare_def
        randomSpeed_def randomColor_def exampleRandom_def exampleCanvas_def degenerateEffect_def
        canvasDimension_def toUnsignedLong_def)

text \<open>
  Claim C5, as stated, fails: on the one-cell grid with an empty colour list
  \<^verbatim>\<open>_maxPointDistance\<close> is 0, the square's colour is \<^verbatim>\<open>undefined\<close>, and the tick throws
  a TypeError when \<^verbatim>\<open>_drawSquare\<close> reads \<^verbatim>\<open>square.color.r\<close>.
\<close>

theorem tick_throws_without_colours:
  "CardEffect_new exampleCanvas exampleContext (Some degenerateOptions) exampleRandom
     = Inr degenerateEffect
   \<and> maxPointDistance degenerateEffect = 0
   \<and> snd (animateCardEffect degenerateEffect) = Some TypeError"
  by (simp add: degenerate_new)
     (simp add: degenerateEffect_def animateCardEffect_def Let_def drawSquare_def updateSquare_def
        bounce_def integrateOpacity_def waveGate_def)

lemma dispatch_frame:
  "map distanceFromCenter (squares (dispatch ev e)) = map distanceFromCenter (squares e)"
  "map color (squares (dispatch ev e)) = map color (squares e)"
  "maxPointDistance (dispatch ev e) = maxPointDistance e"
  "options (dispatch ev e) = options e"
proof -
  have d: "map distanceFromCenter (squares (fst (animateCardEffect e)))
         = map distanceFromCenter (squares e)"
    by (rule map_eq_of_rel [OF tick_rel]) (auto simp: updateSquare_frame)
  have c: "map color (squares (fst (animateCardEffect e))) = map color (squares e)"
    by (rule map_eq_of_rel [OF tick_rel]) (auto simp: updateSquare_frame)
  show "map distanceFromCenter (squares (dispatch ev e)) = map distanceFromCenter (squares e)"
    by (cases ev) (simp_all add: d onMouseEnter_def onMouseLeave_def)
  show "map color (squares (dispatch ev e)) = map color (squares e)"
    by (cases ev) (simp_all add: c onMouseEnter_def onMouseLeave_def)
  show "maxPointDistance (dispatch ev e) = maxPointDistance e"
    by (cases ev) (simp_all add: onMouseEnter_def onMouseLeave_def)
  show "options (dispatch ev e) = options e"
    by (cases ev) (simp_all add: onMouseEnter_def onMouseLeave_def)
qed

lemma run_frame:
  "map distanceFromCenter (squares (run evs e)) = map distanceFromCenter (squares e)
   \<and> map color (squares (run evs e)) = map color (squares e)
   \<and> maxPointDistance (run evs e) = maxPointDistance e
   \<and> options (run evs e) = options e"
  by (induction evs arbitrary: e) (simp_all add: dispatch_frame)

lemma randomColor_defined:
  assumes "colors (options e) \<noteq> []" and "0 \<le> u" and "u < 1"
  shows "randomColor e u \<noteq> None"
proof -
  let ?n = "length (colors (options e))"
  have n: "0 < real ?n"
    using assms(1) by simp
  have "0 \<le> u * real ?n"
    using assms(2) by simp
  then have lo: "0 \<le> \<lfloor>u * real ?n\<rfloor>"
    by simp
  have "u * real ?n < 1 * real ?n"
    using assms(3) n by (intro mult_strict_right_mono)
  then have "u * real ?n < of_int (int ?n)"
    by simp
  then have hi: "\<lfloor>u * real ?n\<rfloor> < int ?n"
    by (simp only: floor_less_iff)
  show ?thesis
    using lo hi by (simp add: randomColor_def Let_def)
qed

lemma new_squares_are_new:
  assumes "CardEffect_new cv cx opts rnd = Inr e" and "square \<in> set (squares e)"
  shows "\<exists>row col k. square = newSquare e rnd row col k"
proof -
  define cfg where "cfg = (case opts of None \<Rightarrow> DEFAULT_OPTIONS | Some given \<Rightarrow> given)"
  define m where "m = nat \<lceil>gridCells cfg\<rceil>"
  have "squares e = concat (map (\<lambda>r. map (\<lambda>c. newSquare e rnd r c (2 * (r * m + c))) [0..<m]) [0..<m])"
    by (rule new_Inr(3) [OF assms(1) cfg_def m_def])
  with assms(2) obtain row col where
      "square = newSquare e rnd row col (2 * (row * m + col))"
    by (auto simp only: set_concat set_map set_upt)
  then show ?thesis
    by blast
qed

lemma new_distance_nonneg:
  assumes "CardEffect_new cv cx opts rnd = Inr e" and "square \<in> set (squares e)"
  shows "0 \<le> distanceFromCenter square"
  using new_squares_are_new [OF assms] by (auto simp: newSquare_def Let_def)

lemma new_colours:
  assumes "CardEffect_new cv cx opts rnd = Inr e" and "square \<in> set (squares e)"
    and "colors (options e) \<noteq> []" and "\<forall>k. 0 \<le> rnd k \<and> rnd k < 1"
  shows "color square \<noteq> None"
proof -
  obtain row col k where "square = newSquare e rnd row col k"
    using new_squares_are_new [OF assms(1,2)] by blast
  then have "color square = randomColor e (rnd (Suc k))"
    by (simp add: newSquare_def Let_def)
  then show ?thesis
    using randomColor_defined [OF assms(3), of "rnd (Suc k)"] assms(4) by simp
qed

lemma color_updateSquare [simp]: "color (updateSquare e square) = color square"
  by (simp add: updateSquare_frame)

lemma forEachSquare_draws_all:
  "\<forall>square \<in> set sqs. color square \<noteq> None \<Longrightarrow> snd (snd (forEachSquare e sqs c)) = None"
  by (induction sqs arbitrary: c) (auto simp: Let_def drawSquare_def split: option.splits)

lemma tick_no_error:
  assumes "\<forall>square \<in> set (squares e). color square \<noteq> None"
  shows "snd (animateCardEffect e) = None"
  using assms by (simp add: animateCardEffect_def Let_def forEachSquare_draws_all)

lemma gate_closed_at_zero:
  assumes "maxPointDistance e = 0" and "distanceFromCenter square = 0"
  shows "waveGate e square = square"
  using assms by (simp add: waveGate_def js_div_def)

text \<open>
  Claim C5, amended. In every state \<open>e\<close> an effect reaches whose \<^verbatim>\<open>_maxPointDistance\<close> is
  0, every square has \<^verbatim>\<open>distanceFromCenter\<close> 0, the ratio of the wave gate is \<open>0 / 0\<close>,
  which is NaN and greater than nothing, so the gate of the tick changes no square and no
  division fails. The tick throws nothing provided the colour list is not empty (and
  \<^verbatim>\<open>Math.random\<close> stays within \<open>[0, 1)\<close>), so that every square has a colour.
\<close>

theorem degenerate_grid_tick:
  assumes "CardEffect_new cv cx opts rnd = Inr e0"
    and "maxPointDistance e0 = 0"
    and "e = run evs e0"
  shows "maxPointDistance e = 0
    \<and> (\<forall>square \<in> set (squares e).
          distanceFromCenter square = 0
        \<and> js_div (distanceFromCenter square) (maxPointDistance e) = NaN
        \<and> waveGate (fst (animateCardEffect e)) square = square)
    \<and> (colors (options e0) \<noteq> [] \<and> (\<forall>k. 0 \<le> rnd k \<and> rnd k < 1)
          \<longrightarrow> snd (animateCardEffect e) = None)"
proof -
  note frame = run_frame [of evs e0, folded assms(3)]
  have mx: "maxPointDistance e = 0"
    using frame assms(2) by simp
  have "set (map distanceFromCenter (squares e)) = set (map distanceFromCenter (squares e0))"
    using frame by simp
  then have dists: "distanceFromCenter ` set (squares e) = distanceFromCenter ` set (squares e0)"
    by (simp only: set_map)
  have "set (map color (squares e)) = set (map color (squares e0))"
    using frame by simp
  then have cols: "color ` set (squares e) = color ` set (squares e0)"
    by (simp only: set_map)
  have zero: "distanceFromCenter square = 0" if "square \<in> set (squares e)" for square
  proof -
    have "distanceFromCenter square \<in> distanceFromCenter ` set (squares e)"
      using that by (rule imageI)
    then have "distanceFromCenter square \<in> distanceFromCenter ` set (squares e0)"
      by (simp only: dists)
    then obtain square0 where s0: "square0 \<in> set (squares e0)"
        and eq: "distanceFromCenter square = distanceFromCenter square0"
      by blast
    have "layoutInv e0"
      by (rule new_Inr(4) [OF assms(1) refl refl])
    then have "Max (insert 0 (distanceFromCenter ` set (squares e0))) = 0"
      using assms(2) by (simp add: layoutInv_def)
    moreover have "distanceFromCenter square0
        \<le> Max (insert 0 (distanceFromCenter ` set (squares e0)))"
      using s0 by (intro Max_ge) simp_all
    ultimately show ?thesis
      using new_distance_nonneg [OF assms(1) s0] eq by simp
  qed
  have gate: "distanceFromCenter square = 0
        \<and> js_div (distanceFromCenter square) (maxPointDistance e) = NaN
        \<and> waveGate (fst (animateCardEffect e)) square = square"
    if "square \<in> set (squares e)" for square
    using zero [OF that] mx by (simp add: js_div_def gate_closed_at_zero)
  have draws: "snd (animateCardEffect e) = None"
    if "colors (options e0) \<noteq> []" and "\<forall>k. 0 \<le> rnd k \<and> rnd k < 1"
  proof (rule tick_no_error, rule ballI)
    fix square assume "square \<in> set (squares e)"
    then have "color square \<in> color ` set (squares e)"
      by (rule imageI)
    then have "color square \<in> color ` set (squares e0)"
      by (simp only: cols)
    then obtain square0 where s0: "square0 \<in> set (squares e0)"
        and eq: "color square = color square0"
      by blast
    show "color square \<noteq> None"
      using new_colours [OF assms(1) s0 that] eq by simp
  qed
  show ?thesis
    using mx gate draws by blast
qed

lemma point_new:
  "CardEffect_new exampleCanvas exampleContext (Some pointOptions) exampleRandom = Inr pointEffect"
  by (simp add: CardEffect_new_def pointOptions_def DEFAULT_OPTIONS_def Let_def
        resetSquaresPoints_def rowLoop.simps colLoop.simps pushSquare_def newSquare_def
        randomSpeed_def randomColor_def exampleRandom_def exampleCanvas_def pointEffect_def
        canvasDimension_def toUnsignedLong_def)

theorem degenerate_grid_tick_witness:
  "CardEffect_new exampleCanvas exampleContext (Some pointOptions) exampleRandom = Inr pointEffect
   \<and> maxPointDistance pointEffect = 0
   \<and> colors (options pointEffect) \<noteq> []
   \<and> (\<forall>k. 0 \<le> exampleRandom k \<and> exampleRandom k < 1)
   \<and> js_div (distanceFromCenter (squares (run [MouseEnter, AnimationFrame] pointEffect) ! 0))
        (maxPointDistance (run [MouseEnter, AnimationFrame] pointEffect)) = NaN
   \<and> waveGate (fst (animateCardEffect (run [MouseEnter, AnimationFrame] pointEffect)))
        (squares (run [MouseEnter, AnimationFrame] pointEffect) ! 0)
       = squares (run [MouseEnter, AnimationFrame] pointEffect) ! 0
   \<and> snd (animateCardEffect (run [MouseEnter, AnimationFrame] pointEffect)) = None"
proof -
  let ?e = "run [MouseEnter, AnimationFrame] pointEffect"
  have mx: "maxPointDistance pointEffect = 0"
    by (simp add: pointEffect_def)
  have cols: "colors (options pointEffect) \<noteq> []"
    by (simp add: pointEffect_def pointOptions_def DEFAULT_OPTIONS_def)
  have rnd: "\<forall>k. 0 \<le> exampleRandom k \<and> exampleRandom k < 1"
    by (simp add: exampleRandom_def)
  have "0 < length (squares ?e)"
    by (simp only: length_squares_run) (simp add: pointEffect_def)
  then have mem: "squares ?e ! 0 \<in> set (squares ?e)"
    by (rule nth_mem)
  note t = degenerate_grid_tick [OF point_new mx refl, of "[MouseEnter, AnimationFrame]"]
  have "js_div (distanceFromCenter (squares ?e ! 0)) (maxPointDistance ?e) = NaN"
    and "waveGate (fst (animateCardEffect ?e)) (squares ?e ! 0) = squares ?e ! 0"
    using t mem by blast+
  moreover have "snd (animateCardEffect ?e) = None"
    using t cols rnd by blast
  ultimately show ?thesis
    using point_new mx cols rnd by blast
qed

subsection \<open>Easing of the two scalars\<close>

lemma pushSquare_scalars:
  "mouseInCard (fst (pushSquare rnd row col s)) = mouseInCard (fst s)
   \<and> opacityTouchFactor (fst (pushSquare rnd row col s)) = opacityTouchFactor (fst s)
   \<and> fadeSpeed (fst (pushSquare rnd row col s)) = fadeSpeed (fst s)"
  by (simp add: pushSquare_def Let_def)

lemma colLoop_scalars:
  "mouseInCard (fst (colLoop rnd row col s)) = mouseInCard (fst s)
   \<and> opacityTouchFactor (fst (colLoop rnd row col s)) = opacityTouchFactor (fst s)
   \<and> fadeSpeed (fst (colLoop rnd row col s)) = fadeSpeed (fst s)"
  by (induction rnd row col s rule: colLoop.induct)
     (subst (1 2 3) colLoop.simps, simp add: pushSquare_scalars)

lemma rowLoop_scalars:
  "mouseInCard (fst (rowLoop rnd row s)) = mouseInCard (fst s)
   \<and> opacityTouchFactor (fst (rowLoop rnd row s)) = opacityTouchFactor (fst s)
   \<and> fadeSpeed (fst (rowLoop rnd row s)) = fadeSpeed (fst s)"
  by (induction rnd row s rule: rowLoop.induct)
     (subst (1 2 3) rowLoop.simps, simp add: colLoop_scalars)

lemma new_scalars:
  assumes "CardEffect_new cv cx opts rnd = Inr e"
  shows "\<not> mouseInCard e" and "opacityTouchFactor e = 0" and "fadeSpeed e = 0"
  using assms
  by (auto simp: CardEffect_new_def Let_def resetSquaresPoints_def rowLoop_scalars
           split: if_splits)

lemma new_default:
  "\<exists>e. CardEffect_new cv cx None rnd = Inr e"
  by (simp add: CardEffect_new_def DEFAULT_OPTIONS_def)

lemma ticks_Suc: "ticks (Suc n) e = fst (animateCardEffect (ticks n e))"
  by (induction n arbitrary: e) simp_all

lemma run_frames: "run (replicate n AnimationFrame) e = ticks n e"
  by (induction n arbitrary: e) simp_all

lemma run_append: "run (evs @ evs') e = run evs' (run evs e)"
  by (induction evs arbitrary: e) simp_all

lemma ticks_fixed [simp]:
  "mouseInCard (ticks n e) = mouseInCard e" "options (ticks n e) = options e"
  by (induction n arbitrary: e) simp_all

lemma opacityTouchFactor_step:
  "opacityTouchFactor (fst (animateCardEffect e)) =
     (if mouseInCard e
      then (if opacityTouchFactor e < 1
            then opacityTouchFactor e + cardSpeedFactor (options e) else 1)
      else (if 0 < opacityTouchFactor e
            then opacityTouchFactor e - cardSpeedFactor (options e) else 0))"
  by (simp add: opacityTouchFactor_tick easeScalars_def)

lemma hover_ramp:
  assumes "mouseInCard e" and "0 < cardSpeedFactor (options e)"
  shows "opacityTouchFactor e + real n * cardSpeedFactor (options e)
           < 1 + cardSpeedFactor (options e) \<Longrightarrow>
         opacityTouchFactor (ticks n e)
           = opacityTouchFactor e + real n * cardSpeedFactor (options e)"
proof (induction n)
  case 0
  show ?case by simp
next
  case (Suc n)
  let ?c = "cardSpeedFactor (options e)"
  have below: "opacityTouchFactor e + real n * ?c < 1"
    using Suc.prems by (simp add: algebra_simps)
  then have "opacityTouchFactor (ticks n e) = opacityTouchFactor e + real n * ?c"
    using Suc.IH assms(2) by simp
  then show ?case
    using below assms(1)
    by (simp only: ticks_Suc opacityTouchFactor_step ticks_fixed) (simp add: algebra_simps)
qed

lemma leave_ramp:
  assumes "\<not> mouseInCard e" and "0 < cardSpeedFactor (options e)"
  shows "- cardSpeedFactor (options e)
           < opacityTouchFactor e - real n * cardSpeedFactor (options e) \<Longrightarrow>
         opacityTouchFactor (ticks n e)
           = opacityTouchFactor e - real n * cardSpeedFactor (options e)"
proof (induction n)
  case 0
  show ?case by simp
next
  case (Suc n)
  let ?c = "cardSpeedFactor (options e)"
  have above: "0 < opacityTouchFactor e - real n * ?c"
    using Suc.prems by (simp add: algebra_simps)
  then have "opacityTouchFactor (ticks n e) = opacityTouchFactor e - real n * ?c"
    using Suc.IH assms(2) by simp
  then show ?case
    using above assms(1)
    by (simp only: ticks_Suc opacityTouchFactor_step ticks_fixed) (simp add: algebra_simps)
qed

lemma default_hovered:
  assumes "CardEffect_new cv cx None rnd = Inr e0"
  shows "mouseInCard (onMouseEnter e0)"
    and "opacityTouchFactor (onMouseEnter e0) = 0"
    and "cardSpeedFactor (options (onMouseEnter e0)) = 13 / 200"
  using new_scalars [OF assms] new_Inr(1) [OF assms refl refl]
  by (simp_all add: onMouseEnter_def DEFAULT_OPTIONS_def)

lemma default_ramp:
  assumes "CardEffect_new cv cx None rnd = Inr e0" and "n \<le> 16"
  shows "opacityTouchFactor (ticks n (onMouseEnter e0)) = real n * (13 / 200)"
proof -
  note h = default_hovered [OF assms(1)]
  have "real n \<le> 16"
    using assms(2) by simp
  then have "opacityTouchFactor (onMouseEnter e0)
        + real n * cardSpeedFactor (options (onMouseEnter e0))
      < 1 + cardSpeedFactor (options (onMouseEnter e0))"
    by (simp add: h)
  then show ?thesis
    using hover_ramp [OF h(1), of n] by (simp add: h)
qed

lemma default_seventeen:
  assumes "CardEffect_new cv cx None rnd = Inr e0"
  shows "opacityTouchFactor (ticks 17 (onMouseEnter e0)) = 1"
proof -
  have "ticks 17 (onMouseEnter e0) = fst (animateCardEffect (ticks 16 (onMouseEnter e0)))"
    using ticks_Suc [of 16 "onMouseEnter e0"] by simp
  then show ?thesis
    using default_ramp [OF assms, of 16] default_hovered(1) [OF assms]
    by (simp add: opacityTouchFactor_step)
qed

text \<open>
  Claim C3 fails on the code. With the default options (\<^verbatim>\<open>cardSpeedFactor\<close> 0.065), a
  new effect that is hovered has \<^verbatim>\<open>_opacityTouchFactor\<close> 0.975 after 15 ticks, 1.04
  after 16 (above 1) and 1 after 17 (a decrease while hovering); when the pointer then
  leaves, 16 more ticks take it to \<open>-0.04\<close> (below 0). The test \<^verbatim>\<open>< 1\<close> (or \<^verbatim>\<open>> 0\<close>) comes
  before the step, so the bound is passed by up to one step and restored a tick later.
\<close>

theorem intensity_overshoots:
  assumes "CardEffect_new cv cx None rnd = Inr e0"
  shows "opacityTouchFactor (run (MouseEnter # replicate 15 AnimationFrame) e0) = 39 / 40
       \<and> opacityTouchFactor (run (MouseEnter # replicate 16 AnimationFrame) e0) = 26 / 25
       \<and> mouseInCard (run (MouseEnter # replicate 16 AnimationFrame) e0)
       \<and> opacityTouchFactor (run (MouseEnter # replicate 17 AnimationFrame) e0) = 1
       \<and> opacityTouchFactor
            (run (MouseEnter # replicate 17 AnimationFrame @ MouseLeave # replicate 16 AnimationFrame)
               e0) = - (1 / 25)"
proof -
  let ?h = "onMouseEnter e0"
  let ?l = "onMouseLeave (ticks 17 ?h)"
  note h = default_hovered [OF assms]
  have up15: "opacityTouchFactor (ticks 15 ?h) = 39 / 40"
    using default_ramp [OF assms, of 15] by simp
  have up16: "opacityTouchFactor (ticks 16 ?h) = 26 / 25"
    using default_ramp [OF assms, of 16] by simp
  have up17: "opacityTouchFactor (ticks 17 ?h) = 1"
    by (rule default_seventeen [OF assms])
  have l: "\<not> mouseInCard ?l" "opacityTouchFactor ?l = 1"
      "cardSpeedFactor (options ?l) = 13 / 200"
    using up17 h(3) by (simp_all add: onMouseLeave_def)
  have "opacityTouchFactor (ticks 16 ?l) = opacityTouchFactor ?l - real 16 * cardSpeedFactor (options ?l)"
    by (rule leave_ramp [OF l(1)]) (simp_all add: l)
  then have down16: "opacityTouchFactor (ticks 16 ?l) = - (1 / 25)"
    by (simp add: l)
  have "run (MouseEnter # replicate 17 AnimationFrame @ MouseLeave # replicate 16 AnimationFrame) e0
      = ticks 16 ?l"
    by (simp add: run_append run_frames)
  then show ?thesis
    using up15 up16 up17 down16 h(1) by (simp add: run_frames)
qed

theorem intensity_overshoots_witness:
  "\<exists>e0. CardEffect_new exampleCanvas exampleContext None exampleRandom = Inr e0
     \<and> opacityTouchFactor (run (MouseEnter # replicate 16 AnimationFrame) e0) = 26 / 25
     \<and> mouseInCard (run (MouseEnter # replicate 16 AnimationFrame) e0)
     \<and> opacityTouchFactor (run (MouseEnter # replicate 17 AnimationFrame) e0) = 1"
proof -
  obtain e0 where e0: "CardEffect_new exampleCanvas exampleContext None exampleRandom = Inr e0"
    using new_default by blast
  show ?thesis
    using e0 intensity_overshoots [OF e0] by blast
qed

text \<open>
  Claim C6 fails on the code. With the default options, \<open>\<lceil>1 / cardSpeedFactor\<rceil>\<close> is 16;
  a new effect that is hovered has an \<^verbatim>\<open>_opacityTouchFactor\<close> different from 1 after each
  of the first 16 ticks (1.04 after the 16th), and reaches 1 at the 17th.
\<close>

theorem intensity_misses_bound:
  assumes "CardEffect_new cv cx None rnd = Inr e0"
  shows "nat \<lceil>1 / cardSpeedFactor (options e0)\<rceil> = 16
       \<and> (\<forall>n \<le> 16. opacityTouchFactor (ticks n (onMouseEnter e0)) \<noteq> 1)
       \<and> opacityTouchFactor (ticks (nat \<lceil>1 / cardSpeedFactor (options e0)\<rceil>) (onMouseEnter e0))
           = 26 / 25
       \<and> opacityTouchFactor (ticks 17 (onMouseEnter e0)) = 1"
proof -
  have c: "cardSpeedFactor (options e0) = 13 / 200"
    using new_Inr(1) [OF assms refl refl] by (simp add: DEFAULT_OPTIONS_def)
  have bound: "nat \<lceil>1 / cardSpeedFactor (options e0)\<rceil> = 16"
    by (simp add: c)
  have never: "opacityTouchFactor (ticks n (onMouseEnter e0)) \<noteq> 1" if "n \<le> 16" for n
  proof
    assume "opacityTouchFactor (ticks n (onMouseEnter e0)) = 1"
    then have "real n * (13 / 200) = 1"
      using default_ramp [OF assms that] by simp
    then have "real (13 * n) = real 200"
      by simp
    then have "13 * n = 200"
      by (simp only: of_nat_eq_iff)
    then show False
      by presburger
  qed
  have "opacityTouchFactor (ticks 16 (onMouseEnter e0)) = 26 / 25"
    using default_ramp [OF assms, of 16] by simp
  then show ?thesis
    using bound never default_seventeen [OF assms] by simp
qed

theorem intensity_misses_bound_witness:
  "\<exists>e0. CardEffect_new exampleCanvas exampleContext None exampleRandom = Inr e0
     \<and> nat \<lceil>1 / cardSpeedFactor (options e0)\<rceil> = 16
     \<and> opacityTouchFactor (ticks 16 (onMouseEnter e0)) = 26 / 25
     \<and> opacityTouchFactor (ticks 17 (onMouseEnter e0)) = 1"
proof -
  obtain e0 where e0: "CardEffect_new exampleCanvas exampleContext None exampleRandom = Inr e0"
    using new_default by blast
  note miss = intensity_misses_bound [OF e0]
  have b: "nat \<lceil>1 / cardSpeedFactor (options e0)\<rceil> = 16"
    using miss by blast
  have "opacityTouchFactor (ticks 16 (onMouseEnter e0)) = 26 / 25"
    using miss unfolding b by blast
  moreover have "opacityTouchFactor (ticks 17 (onMouseEnter e0)) = 1"
    using miss by blast
  ultimately show ?thesis
    using e0 b by blast
qed

end
